theory Spec2Isabelle
  imports Main "HOL-Library.AList"
begin

section \<open>The MCP server manager of src/services/mcp-manager.js\<close>

text \<open>
  The class \<open>MCPServerManager\<close> keeps three JavaScript \<open>Map\<close>s (\<open>servers\<close>,
  \<open>processes\<close>, \<open>connectionAttempts\<close>) and reacts to callbacks of the child processes
  it spawns and of the timers it sets. A JavaScript \<open>Map\<close> iterates in insertion order,
  \<open>set\<close> on a present key keeps its position, \<open>delete\<close> removes the key: this is an
  association list with \<open>AList.update\<close>, \<open>AList.delete\<close> and \<open>map_of\<close>.

  Everything outside the manager is made explicit in the state: the \<open>ChildProcess\<close>
  objects (the map \<open>processes\<close> and the event loop both refer to them, and \<open>kill\<close>
  mutates their \<open>killed\<close> flag), the pending \<open>setTimeout\<close> callbacks, the events
  emitted, the signals sent and the lines logged.
\<close>

subsection \<open>Data\<close>

type_synonym sid = string

text \<open>The identity of a \<open>ChildProcess\<close> object: its index in the list of objects created.\<close>
type_synonym cid = nat

text \<open>One value of \<open>CUSTOM_MCP_SERVERS\<close>. Paths and enablement are read from the
  environment variables when the module is loaded, so the registry is a parameter.\<close>
record config =
  cfg_name :: string
  cfg_layer :: nat
  cfg_path :: string
  cfg_enabled :: bool
  cfg_tools :: "string list"
  cfg_resources :: "string list"

text \<open>The metadata object stored in \<open>this.servers\<close>.\<close>
record server_data =
  sd_config :: config
  sd_pid :: "nat option"
  sd_startTime :: string
  sd_status :: string

datatype signal = SIGTERM | SIGKILL

text \<open>A \<open>ChildProcess\<close> object. Its listeners close over the \<open>serverId\<close> and
  \<open>config\<close> of the \<open>startServer\<close> call that created it. \<open>c_closed\<close> says that
  the handle is gone (the process has exited, or could not be started): such an object
  emits nothing any more and its \<open>kill\<close> returns false.\<close>
record child =
  c_sid :: sid
  c_config :: config
  c_pid :: "nat option"
  c_killed :: bool
  c_closed :: bool

text \<open>The two callbacks the manager passes to \<open>setTimeout\<close>: the relaunch of
  \<open>handleServerFailure\<close>, and the continuation of \<open>shutdown\<close> after its grace period.\<close>
datatype timer_task = Relaunch sid config | GraceElapsed

text \<open>The events of \<open>this.emit\<close>.\<close>
datatype emitted_event =
    ServerStarted sid
  | ServerFailed sid
  | ServerError sid
  | ServerExited sid "int option" "string option"
  | ServerMaxRetriesExceeded sid

text \<open>The lines the manager writes to the logger.\<close>
datatype log_line =
    LogInitializing
  | LogSkipping sid
  | LogFailedToStart sid
  | LogInitialized nat nat
  | LogStarting sid
  | LogStarted sid "nat option"
  | LogProcessError sid
  | LogProcessExited sid "int option" "string option"
  | LogRetrying sid nat
  | LogRetryFailed sid
  | LogMaxRetries sid
  | LogStopping sid
  | LogShuttingDown
  | LogForceKilling sid
  | LogAllShutDown

record manager =
  servers :: "(sid \<times> server_data) list"
  processes :: "(sid \<times> cid) list"
  connectionAttempts :: "(sid \<times> nat) list"
  children :: "child list"
  timers :: "(nat \<times> timer_task) list"
  emitted :: "emitted_event list"
  signals :: "(cid \<times> signal) list"
  logs :: "log_line list"

text \<open>The constructor: three empty maps; \<open>this.maxRetries = 3\<close>.\<close>
definition new_manager :: manager where
  "new_manager = \<lparr>servers = [], processes = [], connectionAttempts = [], children = [],
     timers = [], emitted = [], signals = [], logs = []\<rparr>"

definition maxRetries :: nat where
  "maxRetries = 3"

definition emit :: "emitted_event \<Rightarrow> manager \<Rightarrow> manager" where
  "emit e m = m\<lparr>emitted := emitted m @ [e]\<rparr>"

definition log :: "log_line \<Rightarrow> manager \<Rightarrow> manager" where
  "log l m = m\<lparr>logs := logs m @ [l]\<rparr>"

definition setTimeout :: "timer_task \<Rightarrow> nat \<Rightarrow> manager \<Rightarrow> manager" where
  "setTimeout t ms m = m\<lparr>timers := timers m @ [(ms, t)]\<rparr>"

subsection \<open>startServer\<close>

text \<open>
  What the statement \<open>const process = spawn('node', [config.path], {...})\<close> does is decided
  outside the manager: it throws, or it yields a \<open>ChildProcess\<close> whose \<open>pid\<close> is
  undefined when the program could not be started (the failure then arrives as an
  \<open>error\<close> event). The options object of that statement reads \<open>process.env\<close>, where
  \<open>process\<close> is the constant being declared: read inside its own initializer, a
  \<open>const\<close> binding throws a ReferenceError, which is the outcome \<open>Throws\<close>. The model
  keeps both outcomes, so that the callbacks and timers are covered as well, and the
  theorems below hold whichever outcome each launch has.
  The second component of a reply is the value of \<open>new Date().toISOString()\<close>.
\<close>
datatype spawn_outcome = Throws | Child "nat option"

type_synonym spawn_reply = "spawn_outcome \<times> string"

datatype thrown = Thrown

text \<open>The result of an \<open>async\<close> method: rejected (\<open>Inl\<close>) or resolved, with the state
  it leaves behind.\<close>
definition startServer :: "sid \<Rightarrow> config \<Rightarrow> spawn_reply \<Rightarrow> manager \<Rightarrow> (thrown + unit) \<times> manager" where
  "startServer serverId cfg reply m =
     (let m1 = log (LogStarting serverId) m in
      case fst reply of
        Throws \<Rightarrow> (Inl Thrown, m1)
      | Child pid \<Rightarrow>
          (let process = length (children m1);
               m2 = m1\<lparr>children := children m1 @
                      [\<lparr>c_sid = serverId, c_config = cfg, c_pid = pid,
                        c_killed = False, c_closed = False\<rparr>]\<rparr>;
               m3 = m2\<lparr>processes := AList.update serverId process (processes m2)\<rparr>;
               m4 = m3\<lparr>servers := AList.update serverId
                      \<lparr>sd_config = cfg, sd_pid = pid, sd_startTime = snd reply,
                       sd_status = ''running''\<rparr> (servers m3)\<rparr>
           in (Inr (), log (LogStarted serverId pid) m4)))"

subsection \<open>handleServerFailure\<close>

text \<open>\<open>this.connectionAttempts.get(serverId) || 0\<close>\<close>
definition attempts_of :: "manager \<Rightarrow> sid \<Rightarrow> nat" where
  "attempts_of m serverId =
     (case map_of (connectionAttempts m) serverId of None \<Rightarrow> 0 | Some n \<Rightarrow> n)"

text \<open>The delay of the timer, in milliseconds: \<open>5000 * (attempts + 1)\<close>.\<close>
definition retryDelay :: "nat \<Rightarrow> nat" where
  "retryDelay attempts = 5000 * (attempts + 1)"

definition handleServerFailure :: "sid \<Rightarrow> config \<Rightarrow> manager \<Rightarrow> manager" where
  "handleServerFailure serverId cfg m =
     (let attempts = attempts_of m serverId in
      if attempts < maxRetries then
        (let m1 = m\<lparr>connectionAttempts :=
                     AList.update serverId (attempts + 1) (connectionAttempts m)\<rparr>;
             m2 = log (LogRetrying serverId (attempts + 1)) m1
         in setTimeout (Relaunch serverId cfg) (retryDelay attempts) m2)
      else emit (ServerMaxRetriesExceeded serverId) (log (LogMaxRetries serverId) m))"

subsection \<open>The listeners of a child process\<close>

text \<open>\<open>process.on('error', ...)\<close>\<close>
definition on_error :: "sid \<Rightarrow> config \<Rightarrow> manager \<Rightarrow> manager" where
  "on_error serverId cfg m =
     handleServerFailure serverId cfg
       (emit (ServerError serverId) (log (LogProcessError serverId) m))"

text \<open>\<open>process.on('exit', (code, signal) => ...)\<close>; \<open>None\<close> is JavaScript's \<open>null\<close>.\<close>
definition on_exit :: "sid \<Rightarrow> config \<Rightarrow> int option \<Rightarrow> string option \<Rightarrow> manager \<Rightarrow> manager" where
  "on_exit serverId cfg code sig m =
     (let m1 = log (LogProcessExited serverId code sig) m;
          m2 = m1\<lparr>processes := AList.delete serverId (processes m1)\<rparr>;
          m3 = m2\<lparr>servers := AList.delete serverId (servers m2)\<rparr>;
          m4 = emit (ServerExited serverId code sig) m3
      in if code \<noteq> Some 0 \<and> code \<noteq> None then handleServerFailure serverId cfg m4 else m4)"

subsection \<open>Signals\<close>

text \<open>\<open>process.kill(signal)\<close> of Node: with a live handle the signal is sent and
  \<open>killed\<close> becomes true; without one nothing happens.\<close>
definition kill :: "cid \<Rightarrow> signal \<Rightarrow> manager \<Rightarrow> manager" where
  "kill p sg m =
     (if p < length (children m) \<and> \<not> c_closed (children m ! p)
      then m\<lparr>children := (children m)[p := (children m ! p)\<lparr>c_killed := True\<rparr>],
             signals := signals m @ [(p, sg)]\<rparr>
      else m)"

definition stopServer :: "sid \<Rightarrow> manager \<Rightarrow> manager" where
  "stopServer serverId m =
     (case map_of (processes m) serverId of
        None \<Rightarrow> m
      | Some process \<Rightarrow> kill process SIGTERM (log (LogStopping serverId) m))"

subsection \<open>shutdown\<close>

text \<open>The first loop over \<open>this.processes.entries()\<close>.\<close>
fun terminate_all :: "(sid \<times> cid) list \<Rightarrow> manager \<Rightarrow> manager" where
  "terminate_all [] m = m"
| "terminate_all ((serverId, process) # rest) m =
     terminate_all rest (kill process SIGTERM (log (LogStopping serverId) m))"

text \<open>The second loop: \<open>if (!process.killed) process.kill('SIGKILL')\<close>.\<close>
fun force_kill_all :: "(sid \<times> cid) list \<Rightarrow> manager \<Rightarrow> manager" where
  "force_kill_all [] m = m"
| "force_kill_all ((serverId, process) # rest) m =
     force_kill_all rest
       (if process < length (children m) \<and> \<not> c_killed (children m ! process)
        then kill process SIGKILL (log (LogForceKilling serverId) m)
        else m)"

text \<open>\<open>shutdown\<close> up to its \<open>await\<close>: the graceful signals, then a timer of 2000 ms
  whose callback resolves the promise awaited.\<close>
definition shutdown_begin :: "manager \<Rightarrow> manager" where
  "shutdown_begin m =
     (let m1 = log LogShuttingDown m;
          m2 = terminate_all (processes m1) m1
      in setTimeout GraceElapsed 2000 m2)"

text \<open>\<open>shutdown\<close> after its \<open>await\<close>; the call returns after the last line.\<close>
definition shutdown_finish :: "manager \<Rightarrow> manager" where
  "shutdown_finish m =
     (let m1 = force_kill_all (processes m) m;
          m2 = m1\<lparr>processes := []\<rparr>;
          m3 = m2\<lparr>servers := []\<rparr>
      in log LogAllShutDown m3)"

subsection \<open>initialize\<close>

text \<open>The loop over \<open>Object.entries(CUSTOM_MCP_SERVERS)\<close> with its \<open>try\<close>/\<open>catch\<close>.
  \<open>startServer\<close> awaits nothing, so no callback runs between two iterations.\<close>
fun initialize_loop :: "(sid \<Rightarrow> spawn_reply) \<Rightarrow> (sid \<times> config) list \<Rightarrow> manager \<Rightarrow> manager" where
  "initialize_loop env [] m = m"
| "initialize_loop env ((serverId, cfg) # rest) m =
     (if \<not> cfg_enabled cfg then initialize_loop env rest (log (LogSkipping serverId) m)
      else
        (case startServer serverId cfg (env serverId) m of
           (Inr u, m1) \<Rightarrow> initialize_loop env rest (emit (ServerStarted serverId) m1)
         | (Inl e, m1) \<Rightarrow>
             initialize_loop env rest
               (emit (ServerFailed serverId) (log (LogFailedToStart serverId) m1))))"

definition initialize :: "(sid \<times> config) list \<Rightarrow> (sid \<Rightarrow> spawn_reply) \<Rightarrow> manager \<Rightarrow> (thrown + unit) \<times> manager" where
  "initialize registry env m =
     (let m1 = initialize_loop env registry (log LogInitializing m)
      in (Inr (), log (LogInitialized (length (servers m1))
                        (length (filter (\<lambda>kv. cfg_enabled (snd kv)) registry))) m1))"

subsection \<open>getServerStatus\<close>

record status_entry =
  st_id :: sid
  st_name :: string
  st_layer :: nat
  st_enabled :: bool
  st_status :: string
  st_pid :: "nat option"
  st_startTime :: "string option"
  st_tools :: nat
  st_resources :: nat

definition status_of :: "manager \<Rightarrow> sid \<times> config \<Rightarrow> status_entry" where
  "status_of m kv =
     (let serverData = map_of (servers m) (fst kv) in
      \<lparr>st_id = fst kv, st_name = cfg_name (snd kv), st_layer = cfg_layer (snd kv),
       st_enabled = cfg_enabled (snd kv),
       st_status = (case serverData of Some d \<Rightarrow> sd_status d | None \<Rightarrow> ''stopped''),
       st_pid = (case serverData of Some d \<Rightarrow> sd_pid d | None \<Rightarrow> None),
       st_startTime = (case serverData of Some d \<Rightarrow> Some (sd_startTime d) | None \<Rightarrow> None),
       st_tools = length (cfg_tools (snd kv)),
       st_resources = length (cfg_resources (snd kv))\<rparr>)"

definition getServerStatus :: "(sid \<times> config) list \<Rightarrow> manager \<Rightarrow> status_entry list" where
  "getServerStatus registry m = map (status_of m) registry"

subsection \<open>The manager in its event loop\<close>

text \<open>
  What can happen to a manager: a call of one of its public methods by the host, a timer
  that fires (the \<open>i\<close>-th pending one: the event loop, not the manager, decides which),
  an \<open>error\<close> or \<open>exit\<close> event of a child whose handle is still open. An \<open>exit\<close>
  closes the handle; so does the \<open>error\<close> of a child that never came to life.
\<close>
datatype action =
    Initialize "sid \<Rightarrow> spawn_reply"
  | StartServer sid config spawn_reply
  | StopServer sid
  | Shutdown
  | TimerFire nat spawn_reply
  | ChildError cid
  | ChildExit cid "int option" "string option"

definition close_handle :: "cid \<Rightarrow> manager \<Rightarrow> manager" where
  "close_handle p m = m\<lparr>children := (children m)[p := (children m ! p)\<lparr>c_closed := True\<rparr>]\<rparr>"

text \<open>The timer callback of \<open>handleServerFailure\<close>:
  \<open>this.startServer(serverId, config).catch(...)\<close>.\<close>
definition relaunch :: "sid \<Rightarrow> config \<Rightarrow> spawn_reply \<Rightarrow> manager \<Rightarrow> manager" where
  "relaunch serverId cfg reply m =
     (case startServer serverId cfg reply m of
        (Inr u, m1) \<Rightarrow> m1
      | (Inl e, m1) \<Rightarrow> log (LogRetryFailed serverId) m1)"

definition fire :: "nat \<Rightarrow> spawn_reply \<Rightarrow> manager \<Rightarrow> manager" where
  "fire i reply m =
     (if i < length (timers m) then
        (let m1 = m\<lparr>timers := take i (timers m) @ drop (Suc i) (timers m)\<rparr> in
         case snd (timers m ! i) of
           Relaunch serverId cfg \<Rightarrow> relaunch serverId cfg reply m1
         | GraceElapsed \<Rightarrow> shutdown_finish m1)
      else m)"

definition child_error :: "cid \<Rightarrow> manager \<Rightarrow> manager" where
  "child_error p m =
     (if p < length (children m) \<and> \<not> c_closed (children m ! p) then
        (let c = children m ! p;
             m1 = (if c_pid c = None then close_handle p m else m)
         in on_error (c_sid c) (c_config c) m1)
      else m)"

definition child_exit :: "cid \<Rightarrow> int option \<Rightarrow> string option \<Rightarrow> manager \<Rightarrow> manager" where
  "child_exit p code sig m =
     (if p < length (children m) \<and> \<not> c_closed (children m ! p) then
        (let c = children m ! p
         in on_exit (c_sid c) (c_config c) code sig (close_handle p m))
      else m)"

fun step :: "(sid \<times> config) list \<Rightarrow> action \<Rightarrow> manager \<Rightarrow> manager" where
  "step registry (Initialize env) m = snd (initialize registry env m)"
| "step registry (StartServer serverId cfg reply) m = snd (startServer serverId cfg reply m)"
| "step registry (StopServer serverId) m = stopServer serverId m"
| "step registry Shutdown m = shutdown_begin m"
| "step registry (TimerFire i reply) m = fire i reply m"
| "step registry (ChildError p) m = child_error p m"
| "step registry (ChildExit p code sig) m = child_exit p code sig m"

fun run :: "(sid \<times> config) list \<Rightarrow> action list \<Rightarrow> manager \<Rightarrow> manager" where
  "run registry [] m = m"
| "run registry (a # as) m = run registry as (step registry a m)"

subsection \<open>What the properties speak about\<close>

text \<open>How many \<open>ChildProcess\<close> objects \<open>startServer\<close> has created for a worker.\<close>
definition spawnCount :: "sid \<Rightarrow> manager \<Rightarrow> nat" where
  "spawnCount s m = length (filter (\<lambda>c. c_sid c = s) (children m))"

text \<open>How many retries \<open>handleServerFailure\<close> has announced for a worker.\<close>
fun is_retry :: "sid \<Rightarrow> log_line \<Rightarrow> bool" where
  "is_retry s (LogRetrying s' n) = (s' = s)"
| "is_retry s l = False"

definition retries :: "sid \<Rightarrow> manager \<Rightarrow> nat" where
  "retries s m = length (filter (is_retry s) (logs m))"

fun relaunches :: "sid \<Rightarrow> timer_task \<Rightarrow> bool" where
  "relaunches s (Relaunch s' cfg) = (s' = s)"
| "relaunches s GraceElapsed = False"

text \<open>How many relaunch timers are pending for a worker.\<close>
definition pendingRelaunches :: "sid \<Rightarrow> manager \<Rightarrow> nat" where
  "pendingRelaunches s m = length (filter (\<lambda>t. relaunches s (snd t)) (timers m))"

text \<open>A child that can no longer call back for the worker: it belongs to another worker, or
  its handle is closed.\<close>
definition settled :: "sid \<Rightarrow> child \<Rightarrow> bool" where
  "settled s c = (c_sid c \<noteq> s \<or> c_closed c)"

text \<open>Nothing of the worker is left that could call back: every child created for it has
  its handle closed, and no relaunch of it is pending.\<close>
definition dormant :: "sid \<Rightarrow> manager \<Rightarrow> bool" where
  "dormant s m = (list_all (settled s) (children m) \<and> pendingRelaunches s m = 0)"

text \<open>The host asks for a launch of the worker: \<open>initialize\<close> with the worker enabled in
  the registry, or \<open>startServer\<close> called with its id.\<close>
fun starts :: "(sid \<times> config) list \<Rightarrow> sid \<Rightarrow> action \<Rightarrow> bool" where
  "starts registry s (Initialize env) = list_ex (\<lambda>kv. fst kv = s \<and> cfg_enabled (snd kv)) registry"
| "starts registry s (StartServer s' cfg reply) = (s' = s)"
| "starts registry s a = False"

text \<open>The two maps hold the same keys, in the same order.\<close>
definition keys_agree :: "manager \<Rightarrow> bool" where
  "keys_agree m = (map fst (processes m) = map fst (servers m))"

text \<open>The ids of the workers \<open>startServer\<close> was called for, and of those reported by a
  \<open>serverFailed\<close> event, in order.\<close>
fun starting_ids :: "log_line list \<Rightarrow> sid list" where
  "starting_ids [] = []"
| "starting_ids (LogStarting s # ls) = s # starting_ids ls"
| "starting_ids (l # ls) = starting_ids ls"

fun failed_ids :: "emitted_event list \<Rightarrow> sid list" where
  "failed_ids [] = []"
| "failed_ids (ServerFailed s # es) = s # failed_ids es"
| "failed_ids (e # es) = failed_ids es"



text \<open>Every metadata record stored says \<open>'running'\<close>.\<close>
definition all_running :: "manager \<Rightarrow> bool" where
  "all_running m = list_all (\<lambda>kv. sd_status (snd kv) = ''running'') (servers m)"

subsection \<open>A registry and some runs to compute with\<close>

text \<open>The entry \<open>'trigger-system-mcp'\<close> of \<open>CUSTOM_MCP_SERVERS\<close>; its path and its
  enablement come from \<open>TRIGGER_SYSTEM_MCP_PATH\<close> and \<open>ENABLE_TRIGGER_SYSTEM_MCP\<close>.\<close>
definition trigger_system :: "string \<Rightarrow> bool \<Rightarrow> config" where
  "trigger_system path en =
     \<lparr>cfg_name = ''Hypnotic Trigger Management'', cfg_layer = 2, cfg_path = path,
      cfg_enabled = en,
      cfg_tools = [''register_trigger'', ''activate_trigger'', ''search_triggers'',
                   ''get_trigger'', ''get_activation_history'', ''get_compliance_stats''],
      cfg_resources = [''triggers://registry'', ''triggers://logs'', ''triggers://compliance'']\<rparr>"

text \<open>The entry \<open>'chat-analytics-mcp'\<close>.\<close>
definition chat_analytics :: "string \<Rightarrow> bool \<Rightarrow> config" where
  "chat_analytics path en =
     \<lparr>cfg_name = ''Chat Analytics & Metrics'', cfg_layer = 2, cfg_path = path,
      cfg_enabled = en,
      cfg_tools = [''start_session'', ''end_session'', ''record_message'',
                   ''record_trigger_activation'', ''record_conversion'', ''get_analytics'',
                   ''get_user_engagement''],
      cfg_resources = [''analytics://sessions/active'', ''analytics://sessions/completed'',
                       ''analytics://users/engagement'', ''analytics://conversions'',
                       ''analytics://summary'']\<rparr>"

text \<open>A registry with one worker enabled and one disabled, a launch that succeeds and one
  that throws.\<close>
definition example_registry :: "(sid \<times> config) list" where
  "example_registry =
     [(''trigger-system-mcp'', trigger_system ''triggers/index.js'' True),
      (''chat-analytics-mcp'', chat_analytics ''analytics/index.js'' False)]"

definition launched :: "nat \<Rightarrow> spawn_reply" where
  "launched pid = (Child (Some pid), ''2025-01-01T00:00:00.000Z'')"

definition launch_throws :: spawn_reply where
  "launch_throws = (Throws, ''2025-01-01T00:00:00.000Z'')"

definition every_launch_throws :: "sid \<Rightarrow> spawn_reply" where
  "every_launch_throws s = launch_throws"

definition every_launch_succeeds :: "sid \<Rightarrow> spawn_reply" where
  "every_launch_succeeds s = launched 101"

text \<open>The enabled worker of that registry is started by the host; its process exits with
  code 1 as soon as it runs, and every relaunch timer fires in its turn.\<close>
definition launch :: "action list" where
  "launch =
     [StartServer ''trigger-system-mcp'' (trigger_system ''triggers/index.js'' True) (launched 101)]"

definition first_crash :: "action list" where
  "first_crash = launch @ [ChildExit 0 (Some 1) None]"

definition crash_loop :: "action list" where
  "crash_loop = first_crash @
     [TimerFire 0 (launched 102), ChildExit 1 (Some 1) None,
      TimerFire 0 (launched 103), ChildExit 2 (Some 1) None,
      TimerFire 0 (launched 104)]"

text \<open>A complete shutdown of the running worker: the call, the exit of the process on
  SIGTERM, the end of the grace period.\<close>
definition shutdown_once :: "action list" where
  "shutdown_once = launch @ [Shutdown, ChildExit 0 None (Some ''SIGTERM''), TimerFire 0 launch_throws]"

section \<open>What the operations change\<close>

subsection \<open>What the primitive effects change\<close>

lemma emit_fields [simp]:
  "servers (emit e m) = servers m" "processes (emit e m) = processes m"
  "connectionAttempts (emit e m) = connectionAttempts m" "children (emit e m) = children m"
  "timers (emit e m) = timers m" "emitted (emit e m) = emitted m @ [e]"
  "signals (emit e m) = signals m" "logs (emit e m) = logs m"
  by (simp_all add: emit_def)

lemma log_fields [simp]:
  "servers (log l m) = servers m" "processes (log l m) = processes m"
  "connectionAttempts (log l m) = connectionAttempts m" "children (log l m) = children m"
  "timers (log l m) = timers m" "emitted (log l m) = emitted m"
  "signals (log l m) = signals m" "logs (log l m) = logs m @ [l]"
  by (simp_all add: log_def)

lemma setTimeout_fields [simp]:
  "servers (setTimeout t d m) = servers m" "processes (setTimeout t d m) = processes m"
  "connectionAttempts (setTimeout t d m) = connectionAttempts m"
  "children (setTimeout t d m) = children m"
  "timers (setTimeout t d m) = timers m @ [(d, t)]" "emitted (setTimeout t d m) = emitted m"
  "signals (setTimeout t d m) = signals m" "logs (setTimeout t d m) = logs m"
  by (simp_all add: setTimeout_def)

lemma attempts_of_emit [simp]: "attempts_of (emit e m) s = attempts_of m s"
  by (simp add: attempts_of_def)

lemma attempts_of_log [simp]: "attempts_of (log l m) s = attempts_of m s"
  by (simp add: attempts_of_def)

lemma attempts_of_setTimeout [simp]: "attempts_of (setTimeout t d m) s = attempts_of m s"
  by (simp add: attempts_of_def)

subsection \<open>The two branches of handleServerFailure\<close>

lemma handleServerFailure_retry:
  "attempts_of m serverId < maxRetries \<Longrightarrow>
   handleServerFailure serverId cfg m =
     setTimeout (Relaunch serverId cfg) (retryDelay (attempts_of m serverId))
       (log (LogRetrying serverId (attempts_of m serverId + 1))
         (m\<lparr>connectionAttempts :=
              AList.update serverId (attempts_of m serverId + 1) (connectionAttempts m)\<rparr>))"
  by (simp add: handleServerFailure_def Let_def)

lemma handleServerFailure_exhausted:
  "\<not> attempts_of m serverId < maxRetries \<Longrightarrow>
   handleServerFailure serverId cfg m =
     emit (ServerMaxRetriesExceeded serverId) (log (LogMaxRetries serverId) m)"
  by (simp add: handleServerFailure_def Let_def)

subsection \<open>Lists updated in place\<close>

lemma list_all_update_same:
  "(\<And>c. P (f c) = P c) \<Longrightarrow> list_all P (xs[p := f (xs ! p)]) = list_all P xs"
proof (induction xs arbitrary: p)
  case Nil
  then show ?case by simp
next
  case (Cons x xs)
  then show ?case by (cases p) simp_all
qed

lemma list_all_update_mono:
  "(\<And>c. P c \<Longrightarrow> P (f c)) \<Longrightarrow> list_all P xs \<Longrightarrow> list_all P (xs[p := f (xs ! p)])"
proof (induction xs arbitrary: p)
  case Nil
  then show ?case by simp
next
  case (Cons x xs)
  then show ?case by (cases p) simp_all
qed

lemma filter_update_same:
  "(\<And>c. Q (f c) = Q c) \<Longrightarrow> length (filter Q (xs[p := f (xs ! p)])) = length (filter Q xs)"
proof (induction xs arbitrary: p)
  case Nil
  then show ?case by simp
next
  case (Cons x xs)
  then show ?case by (cases p) simp_all
qed

lemma kill_fields [simp]:
  "servers (kill p sg m) = servers m" "processes (kill p sg m) = processes m"
  "connectionAttempts (kill p sg m) = connectionAttempts m"
  "timers (kill p sg m) = timers m" "emitted (kill p sg m) = emitted m"
  "logs (kill p sg m) = logs m"
  "length (children (kill p sg m)) = length (children m)"
  by (simp_all add: kill_def)

lemma kill_spawnCount [simp]: "spawnCount s (kill p sg m) = spawnCount s m"
  by (simp add: kill_def spawnCount_def filter_update_same)

lemma kill_closed [simp]:
  "list_all (settled s) (children (kill p sg m))
     = list_all (settled s) (children m)"
  by (simp add: kill_def list_all_update_same settled_def)

lemma close_handle_fields [simp]:
  "servers (close_handle p m) = servers m" "processes (close_handle p m) = processes m"
  "connectionAttempts (close_handle p m) = connectionAttempts m"
  "timers (close_handle p m) = timers m" "emitted (close_handle p m) = emitted m"
  "signals (close_handle p m) = signals m"
  "logs (close_handle p m) = logs m"
  "length (children (close_handle p m)) = length (children m)"
  by (simp_all add: close_handle_def)

lemma close_handle_spawnCount [simp]: "spawnCount s (close_handle p m) = spawnCount s m"
  by (simp add: close_handle_def spawnCount_def filter_update_same)

lemma close_handle_closed:
  "list_all (settled s) (children m) \<Longrightarrow>
   list_all (settled s) (children (close_handle p m))"
  by (simp add: close_handle_def list_all_update_mono settled_def)

subsection \<open>What each operation changes\<close>

lemma startServer_Throws:
  "fst reply = Throws \<Longrightarrow> startServer s cfg reply m = (Inl Thrown, log (LogStarting s) m)"
  by (simp add: startServer_def)

lemma startServer_Child:
  "fst reply = Child pid \<Longrightarrow>
   startServer s cfg reply m =
     (Inr (), log (LogStarted s pid)
        (m\<lparr>logs := logs m @ [LogStarting s],
           children := children m @
             [\<lparr>c_sid = s, c_config = cfg, c_pid = pid, c_killed = False, c_closed = False\<rparr>],
           processes := AList.update s (length (children m)) (processes m),
           servers := AList.update s
             \<lparr>sd_config = cfg, sd_pid = pid, sd_startTime = snd reply, sd_status = ''running''\<rparr>
             (servers m)\<rparr>))"
  by (simp add: startServer_def Let_def log_def)

lemma retries_log [simp]: "retries s (log l m) = retries s m + (if is_retry s l then 1 else 0)"
  by (simp add: retries_def)

lemma retries_emit [simp]: "retries s (emit e m) = retries s m"
  by (simp add: retries_def)

lemma retries_setTimeout [simp]: "retries s (setTimeout t d m) = retries s m"
  by (simp add: retries_def)

lemma retries_kill [simp]: "retries s (kill p sg m) = retries s m"
  by (simp add: retries_def)

lemma retries_close_handle [simp]: "retries s (close_handle p m) = retries s m"
  by (simp add: retries_def)

lemma attempts_of_kill [simp]: "attempts_of (kill p sg m) s = attempts_of m s"
  by (simp add: attempts_of_def)

lemma attempts_of_close_handle [simp]: "attempts_of (close_handle p m) s = attempts_of m s"
  by (simp add: attempts_of_def)

lemma spawnCount_log [simp]: "spawnCount s (log l m) = spawnCount s m"
  and spawnCount_emit [simp]: "spawnCount s (emit e m) = spawnCount s m"
  and spawnCount_setTimeout [simp]: "spawnCount s (setTimeout t d m) = spawnCount s m"
  by (simp_all add: spawnCount_def)

lemma pending_log [simp]: "pendingRelaunches s (log l m) = pendingRelaunches s m"
  and pending_emit [simp]: "pendingRelaunches s (emit e m) = pendingRelaunches s m"
  and pending_kill [simp]: "pendingRelaunches s (kill p sg m) = pendingRelaunches s m"
  and pending_close_handle [simp]: "pendingRelaunches s (close_handle p m) = pendingRelaunches s m"
  and pending_setTimeout [simp]:
    "pendingRelaunches s (setTimeout t d m) = pendingRelaunches s m + (if relaunches s t then 1 else 0)"
  by (simp_all add: pendingRelaunches_def)

lemma dormant_log [simp]: "dormant s (log l m) = dormant s m"
  and dormant_emit [simp]: "dormant s (emit e m) = dormant s m"
  and dormant_kill [simp]: "dormant s (kill p sg m) = dormant s m"
  by (simp_all add: dormant_def)

lemma dormant_close_handle: "dormant s m \<Longrightarrow> dormant s (close_handle p m)"
  by (simp add: dormant_def close_handle_closed)

paragraph \<open>startServer\<close>

lemma startServer_frame [simp]:
  "connectionAttempts (snd (startServer s cfg reply m)) = connectionAttempts m"
  "timers (snd (startServer s cfg reply m)) = timers m"
  "emitted (snd (startServer s cfg reply m)) = emitted m"
  "signals (snd (startServer s cfg reply m)) = signals m"
  by (cases "fst reply"; simp add: startServer_Throws startServer_Child)+

lemma startServer_retries [simp]: "retries s' (snd (startServer s cfg reply m)) = retries s' m"
  by (cases "fst reply") (simp_all add: startServer_Throws startServer_Child retries_def)

lemma startServer_attempts [simp]: "attempts_of (snd (startServer s cfg reply m)) s' = attempts_of m s'"
  by (simp add: attempts_of_def)

lemma startServer_pending [simp]:
  "pendingRelaunches s' (snd (startServer s cfg reply m)) = pendingRelaunches s' m"
  by (simp add: pendingRelaunches_def)

lemma startServer_spawnCount:
  "spawnCount s' (snd (startServer s cfg reply m)) =
     spawnCount s' m + (if fst reply \<noteq> Throws \<and> s = s' then 1 else 0)"
  by (cases "fst reply") (simp_all add: startServer_Throws startServer_Child spawnCount_def)

lemma startServer_dormant: "s \<noteq> s' \<Longrightarrow> dormant s' m \<Longrightarrow> dormant s' (snd (startServer s cfg reply m))"
  by (cases "fst reply") (simp_all add: startServer_Throws startServer_Child dormant_def pendingRelaunches_def settled_def)

lemma startServer_keys:
  "map fst (processes m) = map fst (servers m) \<Longrightarrow>
   map fst (processes (snd (startServer s cfg reply m))) = map fst (servers (snd (startServer s cfg reply m)))"
  by (cases "fst reply") (simp_all add: startServer_Throws startServer_Child update_keys)

paragraph \<open>handleServerFailure\<close>

lemma handleServerFailure_frame [simp]:
  "servers (handleServerFailure s cfg m) = servers m"
  "processes (handleServerFailure s cfg m) = processes m"
  "children (handleServerFailure s cfg m) = children m"
  "signals (handleServerFailure s cfg m) = signals m"
  by (cases "attempts_of m s < maxRetries";
      simp add: handleServerFailure_retry handleServerFailure_exhausted)+

lemma handleServerFailure_spawnCount [simp]:
  "spawnCount s' (handleServerFailure s cfg m) = spawnCount s' m"
  by (simp add: spawnCount_def)

lemma attempts_of_update:
  "attempts_of (m\<lparr>connectionAttempts := AList.update s n (connectionAttempts m)\<rparr>) s'
     = (if s' = s then n else attempts_of m s')"
  by (simp add: attempts_of_def update_conv')

lemma retries_connectionAttempts_update [simp]:
  "retries s (m\<lparr>connectionAttempts := x\<rparr>) = retries s m"
  by (simp add: retries_def)



lemma handleServerFailure_pending:
  "pendingRelaunches s' (handleServerFailure s cfg m) =
     pendingRelaunches s' m + (if s' = s \<and> attempts_of m s < maxRetries then 1 else 0)"
  by (cases "attempts_of m s < maxRetries")
     (auto simp add: handleServerFailure_retry handleServerFailure_exhausted pendingRelaunches_def)

lemma handleServerFailure_dormant:
  "s \<noteq> s' \<Longrightarrow> dormant s' (handleServerFailure s cfg m) = dormant s' m"
  by (simp add: dormant_def handleServerFailure_pending)

lemmas obs_defs = attempts_of_def retries_def spawnCount_def pendingRelaunches_def dormant_def

paragraph \<open>on_exit\<close>

lemma on_exit_clean:
  "code = Some 0 \<or> code = None \<Longrightarrow>
   on_exit s cfg code sig m =
     emit (ServerExited s code sig)
       (m\<lparr>logs := logs m @ [LogProcessExited s code sig],
          processes := AList.delete s (processes m),
          servers := AList.delete s (servers m)\<rparr>)"
  by (auto simp add: on_exit_def Let_def log_def)

lemma on_exit_crash:
  "code \<noteq> Some 0 \<Longrightarrow> code \<noteq> None \<Longrightarrow>
   on_exit s cfg code sig m =
     handleServerFailure s cfg
       (emit (ServerExited s code sig)
         (m\<lparr>logs := logs m @ [LogProcessExited s code sig],
            processes := AList.delete s (processes m),
            servers := AList.delete s (servers m)\<rparr>))"
  by (simp add: on_exit_def Let_def log_def)

lemma on_exit_frame [simp]:
  "servers (on_exit s cfg code sig m) = AList.delete s (servers m)"
  "processes (on_exit s cfg code sig m) = AList.delete s (processes m)"
  "children (on_exit s cfg code sig m) = children m"
  "signals (on_exit s cfg code sig m) = signals m"
  by (simp_all add: on_exit_def Let_def)

lemma on_exit_spawnCount [simp]: "spawnCount s' (on_exit s cfg code sig m) = spawnCount s' m"
  by (simp add: spawnCount_def)



lemma on_exit_pending:
  "pendingRelaunches s' (on_exit s cfg code sig m) =
     pendingRelaunches s' m +
       (if s' = s \<and> code \<noteq> Some 0 \<and> code \<noteq> None \<and> attempts_of m s < maxRetries then 1 else 0)"
  by (simp add: on_exit_def Let_def handleServerFailure_pending) (simp add: obs_defs)

lemma on_exit_dormant: "s \<noteq> s' \<Longrightarrow> dormant s' (on_exit s cfg code sig m) = dormant s' m"
  by (simp add: dormant_def on_exit_pending)

paragraph \<open>on_error\<close>

lemma on_error_frame [simp]:
  "servers (on_error s cfg m) = servers m"
  "processes (on_error s cfg m) = processes m"
  "children (on_error s cfg m) = children m"
  "signals (on_error s cfg m) = signals m"
  by (simp_all add: on_error_def)

lemma on_error_spawnCount [simp]: "spawnCount s' (on_error s cfg m) = spawnCount s' m"
  by (simp add: spawnCount_def)



lemma on_error_pending:
  "pendingRelaunches s' (on_error s cfg m) =
     pendingRelaunches s' m + (if s' = s \<and> attempts_of m s < maxRetries then 1 else 0)"
  by (simp add: on_error_def handleServerFailure_pending)

lemma on_error_dormant: "s \<noteq> s' \<Longrightarrow> dormant s' (on_error s cfg m) = dormant s' m"
  by (simp add: dormant_def on_error_pending)

paragraph \<open>stopServer and the two loops of shutdown\<close>

lemma stopServer_frame [simp]:
  "servers (stopServer s m) = servers m" "processes (stopServer s m) = processes m"
  "connectionAttempts (stopServer s m) = connectionAttempts m"
  "timers (stopServer s m) = timers m" "emitted (stopServer s m) = emitted m"
  "length (children (stopServer s m)) = length (children m)"
  by (simp_all add: stopServer_def split: option.split)

lemma stopServer_obs [simp]:
  "attempts_of (stopServer s m) s' = attempts_of m s'"
  "retries s' (stopServer s m) = retries s' m"
  "spawnCount s' (stopServer s m) = spawnCount s' m"
  "pendingRelaunches s' (stopServer s m) = pendingRelaunches s' m"
  "dormant s' (stopServer s m) = dormant s' m"
  by (simp_all add: stopServer_def split: option.split)

lemma terminate_all_frame [simp]:
  "servers (terminate_all ps m) = servers m" "processes (terminate_all ps m) = processes m"
  "connectionAttempts (terminate_all ps m) = connectionAttempts m"
  "timers (terminate_all ps m) = timers m" "emitted (terminate_all ps m) = emitted m"
  "length (children (terminate_all ps m)) = length (children m)"
  by (induction ps arbitrary: m) auto

lemma terminate_all_obs [simp]:
  "attempts_of (terminate_all ps m) s' = attempts_of m s'"
  "retries s' (terminate_all ps m) = retries s' m"
  "spawnCount s' (terminate_all ps m) = spawnCount s' m"
  "pendingRelaunches s' (terminate_all ps m) = pendingRelaunches s' m"
  "dormant s' (terminate_all ps m) = dormant s' m"
  by (induction ps arbitrary: m) auto

lemma force_kill_all_frame [simp]:
  "servers (force_kill_all ps m) = servers m" "processes (force_kill_all ps m) = processes m"
  "connectionAttempts (force_kill_all ps m) = connectionAttempts m"
  "timers (force_kill_all ps m) = timers m" "emitted (force_kill_all ps m) = emitted m"
  "length (children (force_kill_all ps m)) = length (children m)"
  by (induction ps arbitrary: m) auto

lemma force_kill_all_obs [simp]:
  "attempts_of (force_kill_all ps m) s' = attempts_of m s'"
  "retries s' (force_kill_all ps m) = retries s' m"
  "spawnCount s' (force_kill_all ps m) = spawnCount s' m"
  "pendingRelaunches s' (force_kill_all ps m) = pendingRelaunches s' m"
  "dormant s' (force_kill_all ps m) = dormant s' m"
  by (induction ps arbitrary: m) (auto split: if_splits)

lemma dormant_setTimeout [simp]:
  "dormant s (setTimeout t d m) = (dormant s m \<and> \<not> relaunches s t)"
  by (auto simp add: dormant_def)

lemma shutdown_begin_frame [simp]:
  "servers (shutdown_begin m) = servers m" "processes (shutdown_begin m) = processes m"
  "connectionAttempts (shutdown_begin m) = connectionAttempts m"
  "timers (shutdown_begin m) = timers m @ [(2000, GraceElapsed)]"
  "emitted (shutdown_begin m) = emitted m"
  "length (children (shutdown_begin m)) = length (children m)"
  by (simp_all add: shutdown_begin_def Let_def)

lemma shutdown_begin_obs [simp]:
  "attempts_of (shutdown_begin m) s' = attempts_of m s'"
  "retries s' (shutdown_begin m) = retries s' m"
  "spawnCount s' (shutdown_begin m) = spawnCount s' m"
  "pendingRelaunches s' (shutdown_begin m) = pendingRelaunches s' m"
  "dormant s' (shutdown_begin m) = dormant s' m"
  by (simp_all add: shutdown_begin_def Let_def)

lemma shutdown_finish_frame [simp]:
  "servers (shutdown_finish m) = []" "processes (shutdown_finish m) = []"
  "connectionAttempts (shutdown_finish m) = connectionAttempts m"
  "timers (shutdown_finish m) = timers m"
  "emitted (shutdown_finish m) = emitted m"
  "length (children (shutdown_finish m)) = length (children m)"
  by (simp_all add: shutdown_finish_def Let_def)

lemma obs_clear_maps [simp]:
  "attempts_of (m\<lparr>processes := x\<rparr>) s = attempts_of m s"
  "attempts_of (m\<lparr>servers := y\<rparr>) s = attempts_of m s"
  "retries s (m\<lparr>processes := x\<rparr>) = retries s m"
  "retries s (m\<lparr>servers := y\<rparr>) = retries s m"
  "spawnCount s (m\<lparr>processes := x\<rparr>) = spawnCount s m"
  "spawnCount s (m\<lparr>servers := y\<rparr>) = spawnCount s m"
  "pendingRelaunches s (m\<lparr>processes := x\<rparr>) = pendingRelaunches s m"
  "pendingRelaunches s (m\<lparr>servers := y\<rparr>) = pendingRelaunches s m"
  "dormant s (m\<lparr>processes := x\<rparr>) = dormant s m"
  "dormant s (m\<lparr>servers := y\<rparr>) = dormant s m"
  by (simp_all add: obs_defs)

lemma shutdown_finish_obs [simp]:
  "attempts_of (shutdown_finish m) s' = attempts_of m s'"
  "retries s' (shutdown_finish m) = retries s' m"
  "spawnCount s' (shutdown_finish m) = spawnCount s' m"
  "pendingRelaunches s' (shutdown_finish m) = pendingRelaunches s' m"
  "dormant s' (shutdown_finish m) = dormant s' m"
  by (simp_all add: shutdown_finish_def Let_def)

lemma obs_timers_update [simp]:
  "attempts_of (m\<lparr>timers := x\<rparr>) s = attempts_of m s"
  "retries s (m\<lparr>timers := x\<rparr>) = retries s m"
  "spawnCount s (m\<lparr>timers := x\<rparr>) = spawnCount s m"
  by (simp_all add: obs_defs)

lemma filter_remove_nth:
  "i < length xs \<Longrightarrow>
   length (filter P (take i xs @ drop (Suc i) xs)) + (if P (xs ! i) then 1 else 0)
     = length (filter P xs)"
proof -
  assume "i < length xs"
  then have "xs = take i xs @ xs ! i # drop (Suc i) xs"
    by (rule id_take_nth_drop)
  then have "length (filter P xs) = length (filter P (take i xs @ xs ! i # drop (Suc i) xs))"
    by simp
  then show ?thesis by simp
qed

lemma pending_remove_timer:
  "i < length (timers m) \<Longrightarrow>
   pendingRelaunches s (m\<lparr>timers := take i (timers m) @ drop (Suc i) (timers m)\<rparr>)
     + (if relaunches s (snd (timers m ! i)) then 1 else 0) = pendingRelaunches s m"
  using filter_remove_nth [of i "timers m" "\<lambda>t. relaunches s (snd t)"]
  by (simp add: pendingRelaunches_def)

lemma dormant_remove_timer:
  "i < length (timers m) \<Longrightarrow> dormant s m \<Longrightarrow>
   dormant s (m\<lparr>timers := take i (timers m) @ drop (Suc i) (timers m)\<rparr>)
   \<and> \<not> relaunches s (snd (timers m ! i))"
  using pending_remove_timer [of i m s]
  by (auto simp add: dormant_def split: if_splits)

paragraph \<open>relaunch, fire\<close>

lemma relaunch_frame [simp]:
  "connectionAttempts (relaunch s cfg reply m) = connectionAttempts m"
  "timers (relaunch s cfg reply m) = timers m"
  "emitted (relaunch s cfg reply m) = emitted m"
  "signals (relaunch s cfg reply m) = signals m"
  by (cases "fst reply"; simp add: relaunch_def startServer_Throws startServer_Child)+

lemma relaunch_snd:
  "relaunch s cfg reply m =
     (if fst reply = Throws then log (LogRetryFailed s) (snd (startServer s cfg reply m))
      else snd (startServer s cfg reply m))"
  by (cases "fst reply") (simp_all add: relaunch_def startServer_Throws startServer_Child)

lemma relaunch_obs [simp]:
  "attempts_of (relaunch s cfg reply m) s' = attempts_of m s'"
  "retries s' (relaunch s cfg reply m) = retries s' m"
  "pendingRelaunches s' (relaunch s cfg reply m) = pendingRelaunches s' m"
  by (simp_all add: relaunch_snd)

lemma relaunch_spawnCount:
  "spawnCount s' (relaunch s cfg reply m) =
     spawnCount s' m + (if fst reply \<noteq> Throws \<and> s = s' then 1 else 0)"
  by (simp add: relaunch_snd startServer_spawnCount)

lemma relaunch_dormant: "s \<noteq> s' \<Longrightarrow> dormant s' m \<Longrightarrow> dormant s' (relaunch s cfg reply m)"
  by (simp add: relaunch_snd startServer_dormant)

lemma relaunch_keys:
  "map fst (processes m) = map fst (servers m) \<Longrightarrow>
   map fst (processes (relaunch s cfg reply m)) = map fst (servers (relaunch s cfg reply m))"
  by (simp add: relaunch_snd startServer_keys)

paragraph \<open>initialize\<close>

lemma initialize_loop_preserves:
  assumes "P m"
    and lg: "\<And>l m. \<forall>s n. l \<noteq> LogRetrying s n \<Longrightarrow> P m \<Longrightarrow> P (log l m)"
    and em: "\<And>e m. P m \<Longrightarrow> P (emit e m)"
    and st: "\<And>s cfg m. (s, cfg) \<in> set reg \<Longrightarrow> cfg_enabled cfg \<Longrightarrow> P m \<Longrightarrow>
               P (snd (startServer s cfg (env s) m))"
  shows "P (initialize_loop env reg m)"
  using assms(1) st
proof (induction reg arbitrary: m)
  case Nil
  then show ?case by simp
next
  case (Cons kv reg)
  obtain s cfg where kv: "kv = (s, cfg)" by (cases kv)
  have rest: "\<And>m'. P m' \<Longrightarrow> P (initialize_loop env reg m')"
    using Cons.IH Cons.prems(2) by simp
  show ?case
  proof (cases "cfg_enabled cfg")
    case False
    then show ?thesis using kv rest lg Cons.prems(1) by simp
  next
    case True
    have "P (snd (startServer s cfg (env s) m))"
      using Cons.prems kv True by simp
    then show ?thesis
      using kv True rest lg em
      by (cases "startServer s cfg (env s) m") (auto split: sum.splits)
  qed
qed

lemma initialize_preserves:
  assumes "P m"
    and lg: "\<And>l m. \<forall>s n. l \<noteq> LogRetrying s n \<Longrightarrow> P m \<Longrightarrow> P (log l m)"
    and em: "\<And>e m. P m \<Longrightarrow> P (emit e m)"
    and st: "\<And>s cfg m. (s, cfg) \<in> set reg \<Longrightarrow> cfg_enabled cfg \<Longrightarrow> P m \<Longrightarrow>
               P (snd (startServer s cfg (env s) m))"
  shows "P (snd (initialize reg env m))"
proof -
  have "P (initialize_loop env reg (log LogInitializing m))"
    using assms(1) lg by (intro initialize_loop_preserves [OF _ lg em st]) simp_all
  then show ?thesis by (simp add: initialize_def Let_def lg)
qed

subsection \<open>The two maps keep the same keys\<close>

lemma keys_agree_step: "keys_agree m \<Longrightarrow> keys_agree (step reg a m)"
proof (cases a)
  case (Initialize env)
  assume "keys_agree m"
  then have "keys_agree (snd (initialize reg env m))"
    by (rule initialize_preserves) (simp_all add: keys_agree_def startServer_keys)
  then show ?thesis using Initialize by simp
next
  case (StartServer s cfg reply)
  assume "keys_agree m"
  then show ?thesis using StartServer by (simp add: keys_agree_def startServer_keys)
next
  case (StopServer s)
  assume "keys_agree m"
  then show ?thesis using StopServer by (simp add: keys_agree_def)
next
  case Shutdown
  assume "keys_agree m"
  then show ?thesis using Shutdown by (simp add: keys_agree_def)
next
  case (TimerFire i reply)
  assume "keys_agree m"
  then show ?thesis using TimerFire
    by (auto simp add: keys_agree_def fire_def Let_def relaunch_keys split: timer_task.splits)
next
  case (ChildError p)
  assume "keys_agree m"
  then show ?thesis using ChildError
    by (simp add: keys_agree_def child_error_def Let_def)
next
  case (ChildExit p code sig)
  assume "keys_agree m"
  then show ?thesis using ChildExit
    by (simp add: keys_agree_def child_exit_def Let_def delete_keys)
qed

lemma keys_agree_run: "keys_agree m \<Longrightarrow> keys_agree (run reg as m)"
  by (induction as arbitrary: m) (simp_all add: keys_agree_step)

subsection \<open>Retries are counted, and bounded\<close>





subsection \<open>A dormant worker stays dormant until the host starts it\<close>

lemma open_child_of_other:
  "dormant s m \<Longrightarrow> p < length (children m) \<Longrightarrow> \<not> c_closed (children m ! p) \<Longrightarrow>
   c_sid (children m ! p) \<noteq> s"
  by (auto simp add: dormant_def list_all_length settled_def)

lemma dormant_step:
  assumes "dormant s m" and "\<not> starts reg s a"
  shows "dormant s (step reg a m) \<and> spawnCount s (step reg a m) = spawnCount s m"
proof (cases a)
  case (Initialize env)
  have no: "\<And>cfg. (s, cfg) \<in> set reg \<Longrightarrow> \<not> cfg_enabled cfg"
    using assms(2) Initialize by (auto simp add: list_ex_iff)
  have "dormant s (snd (initialize reg env m)) \<and> spawnCount s (snd (initialize reg env m)) = spawnCount s m"
  proof (rule initialize_preserves
          [where P = "\<lambda>m'. dormant s m' \<and> spawnCount s m' = spawnCount s m"])
    fix s' cfg m'
    assume "(s', cfg) \<in> set reg" "cfg_enabled cfg"
      and "dormant s m' \<and> spawnCount s m' = spawnCount s m"
    moreover from this have "s' \<noteq> s" using no by auto
    ultimately show "dormant s (snd (startServer s' cfg (env s') m'))
        \<and> spawnCount s (snd (startServer s' cfg (env s') m')) = spawnCount s m"
      by (simp add: startServer_dormant startServer_spawnCount)
  qed (use assms(1) in simp_all)
  then show ?thesis using Initialize by simp
next
  case (StartServer s' cfg reply)
  then show ?thesis using assms by (simp add: startServer_dormant startServer_spawnCount)
next
  case (StopServer s')
  then show ?thesis using assms by simp
next
  case Shutdown
  then show ?thesis using assms by simp
next
  case (TimerFire i reply)
  show ?thesis
  proof (cases "i < length (timers m)")
    case False
    then show ?thesis using TimerFire assms by (simp add: fire_def)
  next
    case True
    from dormant_remove_timer [OF True assms(1)]
    show ?thesis using TimerFire True
      by (auto simp add: fire_def Let_def relaunch_dormant relaunch_spawnCount
               split: timer_task.splits)
  qed
next
  case (ChildError p)
  show ?thesis
  proof (cases "p < length (children m) \<and> \<not> c_closed (children m ! p)")
    case False
    then show ?thesis using ChildError assms by (auto simp add: child_error_def)
  next
    case True
    then have "c_sid (children m ! p) \<noteq> s"
      using assms(1) by (simp add: open_child_of_other)
    then show ?thesis using ChildError True assms(1)
      by (simp add: child_error_def Let_def on_error_dormant dormant_close_handle)
  qed
next
  case (ChildExit p code sig)
  show ?thesis
  proof (cases "p < length (children m) \<and> \<not> c_closed (children m ! p)")
    case False
    then show ?thesis using ChildExit assms by (auto simp add: child_exit_def)
  next
    case True
    then have "c_sid (children m ! p) \<noteq> s"
      using assms(1) by (simp add: open_child_of_other)
    then show ?thesis using ChildExit True assms(1)
      by (simp add: child_exit_def Let_def on_exit_dormant dormant_close_handle)
  qed
qed

lemma dormant_run:
  "dormant s m \<Longrightarrow> \<not> list_ex (starts reg s) as \<Longrightarrow>
   dormant s (run reg as m) \<and> spawnCount s (run reg as m) = spawnCount s m"
proof (induction as arbitrary: m)
  case Nil
  then show ?case by simp
next
  case (Cons a as)
  then have "dormant s (step reg a m) \<and> spawnCount s (step reg a m) = spawnCount s m"
    by (simp add: dormant_step)
  then show ?case using Cons by simp
qed

lemma startServer_servers_other:
  "s \<noteq> s' \<Longrightarrow> map_of (servers (snd (startServer s cfg reply m))) s' = map_of (servers m) s'"
  by (cases "fst reply") (simp_all add: startServer_Throws startServer_Child update_conv')

lemma relaunch_servers_other:
  "s \<noteq> s' \<Longrightarrow> map_of (servers (relaunch s cfg reply m)) s' = map_of (servers m) s'"
  by (simp add: relaunch_snd startServer_servers_other)

lemma servers_none_step:
  assumes "dormant s m" and "\<not> starts reg s a" and "map_of (servers m) s = None"
  shows "map_of (servers (step reg a m)) s = None"
proof (cases a)
  case (Initialize env)
  have no: "\<And>cfg. (s, cfg) \<in> set reg \<Longrightarrow> \<not> cfg_enabled cfg"
    using assms(2) Initialize by (auto simp add: list_ex_iff)
  have "map_of (servers (snd (initialize reg env m))) s = None"
  proof (rule initialize_preserves [where P = "\<lambda>m'. map_of (servers m') s = None"])
    fix s' cfg and m' :: manager
    assume "(s', cfg) \<in> set reg" "cfg_enabled cfg" and "map_of (servers m') s = None"
    moreover from this have "s' \<noteq> s" using no by auto
    ultimately show "map_of (servers (snd (startServer s' cfg (env s') m'))) s = None"
      by (simp add: startServer_servers_other)
  qed (use assms(3) in simp_all)
  then show ?thesis using Initialize by simp
next
  case (StartServer s' cfg reply)
  then show ?thesis using assms by (simp add: startServer_servers_other)
next
  case (StopServer s')
  then show ?thesis using assms by simp
next
  case Shutdown
  then show ?thesis using assms by simp
next
  case (TimerFire i reply)
  show ?thesis
  proof (cases "i < length (timers m)")
    case False
    then show ?thesis using TimerFire assms by (simp add: fire_def)
  next
    case True
    from dormant_remove_timer [OF True assms(1)]
    show ?thesis using TimerFire True assms(3)
      by (auto simp add: fire_def Let_def relaunch_servers_other split: timer_task.splits)
  qed
next
  case (ChildError p)
  then show ?thesis using assms(3) by (simp add: child_error_def Let_def)
next
  case (ChildExit p code sig)
  then show ?thesis using assms(3) by (simp add: child_exit_def Let_def delete_conv')
qed

lemma servers_none_run:
  "dormant s m \<Longrightarrow> \<not> list_ex (starts reg s) as \<Longrightarrow> map_of (servers m) s = None \<Longrightarrow>
   map_of (servers (run reg as m)) s = None"
proof (induction as arbitrary: m)
  case Nil
  then show ?case by simp
next
  case (Cons a as)
  then have "dormant s (step reg a m)" and "map_of (servers (step reg a m)) s = None"
    by (simp_all add: dormant_step servers_none_step)
  then show ?case using Cons by simp
qed

lemma dormant_new: "dormant s new_manager"
  by (simp add: dormant_def pendingRelaunches_def new_manager_def)

lemma status_of_absent:
  "map_of (servers m) s = None \<Longrightarrow>
   st_id (status_of m (s, cfg)) = s \<and> st_status (status_of m (s, cfg)) = ''stopped''
   \<and> st_pid (status_of m (s, cfg)) = None \<and> st_startTime (status_of m (s, cfg)) = None
   \<and> st_enabled (status_of m (s, cfg)) = cfg_enabled cfg"
  by (simp add: status_of_def)

subsection \<open>Computing with the example\<close>

lemmas exec_defs = new_manager_def maxRetries_def emit_def log_def setTimeout_def startServer_def
  attempts_of_def retryDelay_def handleServerFailure_def on_error_def on_exit_def kill_def
  stopServer_def shutdown_begin_def shutdown_finish_def initialize_def status_of_def
  getServerStatus_def close_handle_def relaunch_def fire_def child_error_def child_exit_def
  spawnCount_def retries_def pendingRelaunches_def settled_def dormant_def keys_agree_def
  example_registry_def launched_def launch_throws_def Let_def

lemma run_append: "run reg (as @ bs) m = run reg bs (run reg as m)"
  by (induction as arbitrary: m) simp_all

lemma child_exit_open:
  "p < length (children m) \<Longrightarrow> \<not> c_closed (children m ! p) \<Longrightarrow>
   child_exit p code sig m =
     on_exit (c_sid (children m ! p)) (c_config (children m ! p)) code sig (close_handle p m)"
  by (simp add: child_exit_def Let_def)

lemma started_state:
  "run example_registry launch new_manager =
    \<lparr>servers = [(''trigger-system-mcp'',
        \<lparr>sd_config = trigger_system ''triggers/index.js'' True, sd_pid = Some 101,
         sd_startTime = ''2025-01-01T00:00:00.000Z'', sd_status = ''running''\<rparr>)],
     processes = [(''trigger-system-mcp'', 0)],
     connectionAttempts = [],
     children =
       [\<lparr>c_sid = ''trigger-system-mcp'', c_config = trigger_system ''triggers/index.js'' True,
         c_pid = Some 101, c_killed = False, c_closed = False\<rparr>],
     timers = [], emitted = [], signals = [],
     logs = [LogStarting ''trigger-system-mcp'', LogStarted ''trigger-system-mcp'' (Some 101)]\<rparr>"
  by (simp add: launch_def exec_defs)

lemma crashed_state:
  "run example_registry first_crash new_manager =
    \<lparr>servers = [], processes = [],
     connectionAttempts = [(''trigger-system-mcp'', 1)],
     children =
       [\<lparr>c_sid = ''trigger-system-mcp'', c_config = trigger_system ''triggers/index.js'' True,
         c_pid = Some 101, c_killed = False, c_closed = True\<rparr>],
     timers = [(5000, Relaunch ''trigger-system-mcp'' (trigger_system ''triggers/index.js'' True))],
     emitted = [ServerExited ''trigger-system-mcp'' (Some 1) None], signals = [],
     logs = [LogStarting ''trigger-system-mcp'', LogStarted ''trigger-system-mcp'' (Some 101),
             LogProcessExited ''trigger-system-mcp'' (Some 1) None,
             LogRetrying ''trigger-system-mcp'' 1]\<rparr>"
  by (simp add: first_crash_def run_append started_state)
     (simp add: child_exit_def close_handle_def on_exit_def handleServerFailure_def
        attempts_of_def maxRetries_def retryDelay_def setTimeout_def emit_def log_def Let_def)

lemma crash_loop_state:
  "run example_registry crash_loop new_manager =
    \<lparr>servers = [(''trigger-system-mcp'',
        \<lparr>sd_config = trigger_system ''triggers/index.js'' True, sd_pid = Some 104,
         sd_startTime = ''2025-01-01T00:00:00.000Z'', sd_status = ''running''\<rparr>)],
     processes = [(''trigger-system-mcp'', 3)],
     connectionAttempts = [(''trigger-system-mcp'', 3)],
     children =
       [\<lparr>c_sid = ''trigger-system-mcp'', c_config = trigger_system ''triggers/index.js'' True,
         c_pid = Some 101, c_killed = False, c_closed = True\<rparr>,
        \<lparr>c_sid = ''trigger-system-mcp'', c_config = trigger_system ''triggers/index.js'' True,
         c_pid = Some 102, c_killed = False, c_closed = True\<rparr>,
        \<lparr>c_sid = ''trigger-system-mcp'', c_config = trigger_system ''triggers/index.js'' True,
         c_pid = Some 103, c_killed = False, c_closed = True\<rparr>,
        \<lparr>c_sid = ''trigger-system-mcp'', c_config = trigger_system ''triggers/index.js'' True,
         c_pid = Some 104, c_killed = False, c_closed = False\<rparr>],
     timers = [],
     emitted = [ServerExited ''trigger-system-mcp'' (Some 1) None,
                ServerExited ''trigger-system-mcp'' (Some 1) None,
                ServerExited ''trigger-system-mcp'' (Some 1) None],
     signals = [],
     logs = [LogStarting ''trigger-system-mcp'', LogStarted ''trigger-system-mcp'' (Some 101),
             LogProcessExited ''trigger-system-mcp'' (Some 1) None,
             LogRetrying ''trigger-system-mcp'' 1,
             LogStarting ''trigger-system-mcp'', LogStarted ''trigger-system-mcp'' (Some 102),
             LogProcessExited ''trigger-system-mcp'' (Some 1) None,
             LogRetrying ''trigger-system-mcp'' 2,
             LogStarting ''trigger-system-mcp'', LogStarted ''trigger-system-mcp'' (Some 103),
             LogProcessExited ''trigger-system-mcp'' (Some 1) None,
             LogRetrying ''trigger-system-mcp'' 3,
             LogStarting ''trigger-system-mcp'', LogStarted ''trigger-system-mcp'' (Some 104)]\<rparr>"
  by (simp add: crash_loop_def run_append crashed_state) (simp add: exec_defs)

lemma startServer_servers_kept:
  "map_of (servers m) s \<noteq> None \<Longrightarrow> map_of (servers (snd (startServer s' cfg reply m))) s \<noteq> None"
  by (cases "fst reply") (auto simp add: startServer_Throws startServer_Child update_conv')

lemma relaunch_servers_kept:
  "map_of (servers m) s \<noteq> None \<Longrightarrow> map_of (servers (relaunch s' cfg reply m)) s \<noteq> None"
  using startServer_servers_kept [of m s s' cfg reply] by (simp add: relaunch_snd)

subsection \<open>Timers, shutdown and the log\<close>

lemma remove_last_timer: "take (length ts) (ts @ [x]) @ drop (Suc (length ts)) (ts @ [x]) = ts"
  by simp

lemma fire_grace_after_begin:
  "fire (length (timers m)) reply (shutdown_begin m)
     = shutdown_finish ((shutdown_begin m)\<lparr>timers := timers m\<rparr>)"
  by (simp add: fire_def Let_def)

lemma fire_relaunch:
  "i < length (timers m) \<Longrightarrow> timers m ! i = (d, Relaunch s cfg) \<Longrightarrow>
   fire i reply m = relaunch s cfg reply (m\<lparr>timers := take i (timers m) @ drop (Suc i) (timers m)\<rparr>)"
  by (simp add: fire_def Let_def)

lemma starting_ids_append [simp]: "starting_ids (xs @ ys) = starting_ids xs @ starting_ids ys"
  by (induction xs rule: starting_ids.induct) simp_all

lemma starting_ids_terminate_all [simp]:
  "starting_ids (logs (terminate_all ps m)) = starting_ids (logs m)"
  by (induction ps arbitrary: m) auto

lemma starting_ids_force_kill_all [simp]:
  "starting_ids (logs (force_kill_all ps m)) = starting_ids (logs m)"
  by (induction ps arbitrary: m) auto

lemma starting_ids_shutdown [simp]:
  "starting_ids (logs (shutdown_begin m)) = starting_ids (logs m)"
  "starting_ids (logs (shutdown_finish m)) = starting_ids (logs m)"
  by (simp_all add: shutdown_begin_def shutdown_finish_def Let_def)

lemma starting_ids_relaunch [simp]:
  "starting_ids (logs (relaunch s cfg reply m)) = starting_ids (logs m) @ [s]"
  by (cases "fst reply") (simp_all add: relaunch_def startServer_Throws startServer_Child)

lemma relaunch_Child_servers:
  "fst reply = Child pid \<Longrightarrow>
   map_of (servers (relaunch s cfg reply m)) s
     = Some \<lparr>sd_config = cfg, sd_pid = pid, sd_startTime = snd reply, sd_status = ''running''\<rparr>"
  by (simp add: relaunch_def startServer_Child update_conv')

subsection \<open>initialize, and a shutdown with nothing to stop\<close>

lemma failed_ids_append [simp]: "failed_ids (xs @ ys) = failed_ids xs @ failed_ids ys"
  by (induction xs rule: failed_ids.induct) simp_all

lemma initialize_loop_starting_ids:
  "starting_ids (logs (initialize_loop env reg m))
     = starting_ids (logs m) @ map fst (filter (\<lambda>kv. cfg_enabled (snd kv)) reg)"
proof (induction reg arbitrary: m)
  case Nil
  then show ?case by simp
next
  case (Cons kv reg)
  obtain s cfg where kv: "kv = (s, cfg)" by (cases kv)
  show ?case
    by (cases "fst (env s)")
       (simp_all add: kv Cons startServer_Throws startServer_Child)
qed

lemma initialize_loop_failed_ids:
  "failed_ids (emitted (initialize_loop env reg m))
     = failed_ids (emitted m)
       @ map fst (filter (\<lambda>kv. cfg_enabled (snd kv) \<and> fst (env (fst kv)) = Throws) reg)"
proof (induction reg arbitrary: m)
  case Nil
  then show ?case by simp
next
  case (Cons kv reg)
  obtain s cfg where kv: "kv = (s, cfg)" by (cases kv)
  show ?case
    by (cases "fst (env s)")
       (simp_all add: kv Cons startServer_Throws startServer_Child)
qed

lemma initialize_result: "fst (initialize reg env m) = Inr ()"
  by (simp add: initialize_def Let_def)

lemma shutdown_begin_idle:
  "processes m = [] \<Longrightarrow> shutdown_begin m = setTimeout GraceElapsed 2000 (log LogShuttingDown m)"
  by (simp add: shutdown_begin_def Let_def)

lemma shutdown_finish_idle:
  "processes m = [] \<Longrightarrow> servers m = [] \<Longrightarrow> shutdown_finish m = log LogAllShutDown m"
  by (cases m) (simp add: shutdown_finish_def Let_def)

subsection \<open>Restart attempts are paid for by recorded attempts\<close>




subsection \<open>The only status stored is 'running'\<close>




lemma all_running_fields [simp]:
  "all_running (log l m) = all_running m" "all_running (emit e m) = all_running m"
  "all_running (m\<lparr>timers := x\<rparr>) = all_running m"
  "all_running (stopServer s m) = all_running m"
  "all_running (shutdown_begin m) = all_running m"
  "all_running (shutdown_finish m)"
  "all_running (on_error s cfg m) = all_running m"
  by (simp_all add: all_running_def)





subsection \<open>Failures in a row\<close>

lemma failures_in_a_row:
  assumes "attempts_of m s = 0"
  shows "timers ((handleServerFailure s cfg ^^ n) m)
           = timers m @ map (\<lambda>k. (5000 * k, Relaunch s cfg)) [1..<Suc (min n maxRetries)]
       \<and> attempts_of ((handleServerFailure s cfg ^^ n) m) s = min n maxRetries"
proof (induction n)
  case 0
  then show ?case using assms by simp
next
  case (Suc n)
  let ?m = "(handleServerFailure s cfg ^^ n) m"
  show ?case
  proof (cases "n < maxRetries")
    case True
    then have a: "attempts_of ?m s = n" using Suc by simp
    then have "attempts_of ?m s < maxRetries" using True by simp
    then have "handleServerFailure s cfg ?m =
        setTimeout (Relaunch s cfg) (retryDelay (attempts_of ?m s))
          (log (LogRetrying s (attempts_of ?m s + 1))
            (?m\<lparr>connectionAttempts :=
                 AList.update s (attempts_of ?m s + 1) (connectionAttempts ?m)\<rparr>))"
      by (rule handleServerFailure_retry)
    then show ?thesis using Suc True a
      by (simp add: retryDelay_def attempts_of_update min_def)
  next
    case False
    then have "attempts_of ?m s = maxRetries" using Suc by simp
    then have "\<not> attempts_of ?m s < maxRetries" by simp
    then have "handleServerFailure s cfg ?m =
        emit (ServerMaxRetriesExceeded s) (log (LogMaxRetries s) ?m)"
      by (rule handleServerFailure_exhausted)
    then show ?thesis using Suc False by (simp add: min_def)
  qed
qed

subsection \<open>The exit listener, and the timers across a shutdown\<close>

text \<open>
  What the \<open>exit\<close> listener does to a manager that holds a child with an open handle, and
  what a \<open>shutdown\<close> leaves of the relaunch timers. A launch that yields a child is
  needed to get there.
\<close>

lemma signal_exit_not_retried:
  assumes "p < length (children m)" and "\<not> c_closed (children m ! p)"
    and "c_sid (children m ! p) = s"
  shows "timers (child_exit p None sig m) = timers m
       \<and> connectionAttempts (child_exit p None sig m) = connectionAttempts m
       \<and> emitted (child_exit p None sig m) = emitted m @ [ServerExited s None sig]
       \<and> logs (child_exit p None sig m) = logs m @ [LogProcessExited s None sig]
       \<and> map_of (servers (child_exit p None sig m)) s = None
       \<and> map_of (processes (child_exit p None sig m)) s = None
       \<and> spawnCount s (child_exit p None sig m) = spawnCount s m
       \<and> (code \<noteq> 0 \<and> attempts_of m s < maxRetries \<longrightarrow>
            timers (child_exit p (Some code) sig m)
              = timers m @ [(retryDelay (attempts_of m s), Relaunch s (c_config (children m ! p)))])"
proof -
  have eq: "\<And>code. child_exit p code sig m
      = on_exit s (c_config (children m ! p)) code sig (close_handle p m)"
    using assms by (simp add: child_exit_open)
  have retry: "code \<noteq> 0 \<and> attempts_of m s < maxRetries \<longrightarrow>
      timers (child_exit p (Some code) sig m)
        = timers m @ [(retryDelay (attempts_of m s), Relaunch s (c_config (children m ! p)))]"
    by (simp add: eq on_exit_crash handleServerFailure_retry attempts_of_def)
  have sc: "spawnCount s (child_exit p None sig m) = spawnCount s m"
    by (simp add: eq)
  have "timers (child_exit p None sig m) = timers m"
    "connectionAttempts (child_exit p None sig m) = connectionAttempts m"
    "emitted (child_exit p None sig m) = emitted m @ [ServerExited s None sig]"
    "logs (child_exit p None sig m) = logs m @ [LogProcessExited s None sig]"
    "map_of (servers (child_exit p None sig m)) s = None"
    "map_of (processes (child_exit p None sig m)) s = None"
    by (simp_all add: eq on_exit_clean delete_conv')
  then show ?thesis
    using retry sc by simp
qed

lemma clean_exit_not_relaunched:
  assumes "p < length (children m)" and "\<not> c_closed (children m ! p)"
    and "c_sid (children m ! p) = s"
    and "dormant s (close_handle p m)"
    and "\<not> list_ex (starts registry s) as"
  shows "map_of (servers (child_exit p (Some 0) sig m)) s = None
       \<and> map_of (processes (child_exit p (Some 0) sig m)) s = None
       \<and> st_status (status_of (child_exit p (Some 0) sig m) (s, cfg)) = ''stopped''
       \<and> timers (child_exit p (Some 0) sig m) = timers m
       \<and> connectionAttempts (child_exit p (Some 0) sig m) = connectionAttempts m
       \<and> emitted (child_exit p (Some 0) sig m) = emitted m @ [ServerExited s (Some 0) sig]
       \<and> logs (child_exit p (Some 0) sig m) = logs m @ [LogProcessExited s (Some 0) sig]
       \<and> spawnCount s (run registry as (child_exit p (Some 0) sig m)) = spawnCount s m
       \<and> map_of (servers (run registry as (child_exit p (Some 0) sig m))) s = None"
proof -
  let ?m' = "child_exit p (Some 0) sig m"
  have eq: "?m' = on_exit s (c_config (children m ! p)) (Some 0) sig (close_handle p m)"
    using assms(1,2,3) by (simp add: child_exit_open)
  have frame: "timers ?m' = timers m" "connectionAttempts ?m' = connectionAttempts m"
    "emitted ?m' = emitted m @ [ServerExited s (Some 0) sig]"
    "logs ?m' = logs m @ [LogProcessExited s (Some 0) sig]"
    by (simp_all add: eq on_exit_clean)
  have none: "map_of (servers ?m') s = None" and nonep: "map_of (processes ?m') s = None"
    by (simp_all add: eq delete_conv')
  have dorm: "dormant s ?m'"
    using assms(4) by (simp add: eq dormant_def on_exit_pending)
  have sc: "spawnCount s ?m' = spawnCount s m"
    by (simp add: eq)
  from dormant_run [OF dorm assms(5)] servers_none_run [OF dorm assms(5) none]
  show ?thesis
    using frame none nonep sc status_of_absent [OF none, of cfg] by simp
qed

lemma handle_removed_by_exit_or_shutdown:
  "(map_of (servers m) s \<noteq> None \<and> map_of (servers (step registry a m)) s = None \<longrightarrow>
      (\<exists>p code sig. a = ChildExit p code sig \<and> p < length (children m)
          \<and> \<not> c_closed (children m ! p) \<and> c_sid (children m ! p) = s)
      \<or> (\<exists>i reply. a = TimerFire i reply \<and> i < length (timers m)
          \<and> snd (timers m ! i) = GraceElapsed))
   \<and> (p < length (children m) \<and> \<not> c_closed (children m ! p) \<longrightarrow>
        map_of (servers (step registry (ChildExit p code sig) m)) (c_sid (children m ! p)) = None)
   \<and> (i < length (timers m) \<and> snd (timers m ! i) = GraceElapsed \<longrightarrow>
        servers (step registry (TimerFire i reply) m) = [])"
proof -
  have removal: "map_of (servers m) s \<noteq> None \<and> map_of (servers (step registry a m)) s = None \<longrightarrow>
      (\<exists>p code sig. a = ChildExit p code sig \<and> p < length (children m)
          \<and> \<not> c_closed (children m ! p) \<and> c_sid (children m ! p) = s)
      \<or> (\<exists>i reply. a = TimerFire i reply \<and> i < length (timers m)
          \<and> snd (timers m ! i) = GraceElapsed)"
  proof (cases a)
    case (Initialize env)
    have "map_of (servers m) s \<noteq> None \<Longrightarrow> map_of (servers (snd (initialize registry env m))) s \<noteq> None"
      by (rule initialize_preserves [where P = "\<lambda>m'. map_of (servers m') s \<noteq> None"])
         (use startServer_servers_kept in simp_all)
    then have "map_of (servers m) s \<noteq> None \<longrightarrow> map_of (servers (step registry a m)) s \<noteq> None"
      using Initialize by simp
    then show ?thesis by blast
  next
    case (StartServer s' cfg reply)
    then have "map_of (servers m) s \<noteq> None \<longrightarrow> map_of (servers (step registry a m)) s \<noteq> None"
      using startServer_servers_kept [of m s s' cfg reply] by simp
    then show ?thesis by blast
  next
    case (StopServer s')
    then show ?thesis by auto
  next
    case Shutdown
    then show ?thesis by auto
  next
    case (TimerFire i reply)
    show ?thesis
    proof (cases "i < length (timers m)")
      case False
      then show ?thesis using TimerFire by (auto simp add: fire_def)
    next
      case True
      show ?thesis
      proof (cases "snd (timers m ! i)")
        case GraceElapsed
        then show ?thesis using TimerFire True by auto
      next
        case (Relaunch s' cfg)
        have "map_of (servers m) s \<noteq> None \<Longrightarrow>
              map_of (servers (relaunch s' cfg reply
                (m\<lparr>timers := take i (timers m) @ drop (Suc i) (timers m)\<rparr>))) s \<noteq> None"
          by (rule relaunch_servers_kept) simp
        then have "map_of (servers m) s \<noteq> None \<longrightarrow> map_of (servers (step registry a m)) s \<noteq> None"
          using TimerFire True Relaunch by (simp add: fire_def Let_def)
        then show ?thesis by blast
      qed
    qed
  next
    case (ChildError p)
    then show ?thesis by (auto simp add: child_error_def Let_def)
  next
    case (ChildExit p code sig)
    then show ?thesis
      by (cases "c_sid (children m ! p) = s") (auto simp add: child_exit_def Let_def)
  qed
  have exit: "p < length (children m) \<and> \<not> c_closed (children m ! p) \<longrightarrow>
        map_of (servers (step registry (ChildExit p code sig) m)) (c_sid (children m ! p)) = None"
    by (simp add: child_exit_def Let_def delete_conv')
  have grace: "i < length (timers m) \<and> snd (timers m ! i) = GraceElapsed \<longrightarrow>
        servers (step registry (TimerFire i reply) m) = []"
    by (simp add: fire_def Let_def)
  show ?thesis using removal exit grace by blast
qed

lemma shutdown_keeps_relaunch_timers:
  assumes "i < length (timers m)" and "timers m ! i = (d, Relaunch s cfg)"
  shows "timers (fire (length (timers m)) reply (shutdown_begin m)) = timers m
       \<and> servers (fire (length (timers m)) reply (shutdown_begin m)) = []
       \<and> processes (fire (length (timers m)) reply (shutdown_begin m)) = []
       \<and> starting_ids (logs (fire i reply' (fire (length (timers m)) reply (shutdown_begin m))))
           = starting_ids (logs m) @ [s]
       \<and> (fst reply' = Child pid \<longrightarrow>
            spawnCount s (fire i reply' (fire (length (timers m)) reply (shutdown_begin m)))
              = spawnCount s m + 1
            \<and> map_of (servers (fire i reply' (fire (length (timers m)) reply (shutdown_begin m)))) s
              = Some \<lparr>sd_config = cfg, sd_pid = pid, sd_startTime = snd reply',
                      sd_status = ''running''\<rparr>)"
proof -
  let ?m2 = "fire (length (timers m)) reply (shutdown_begin m)"
  let ?m3 = "fire i reply' ?m2"
  have m2: "?m2 = shutdown_finish ((shutdown_begin m)\<lparr>timers := timers m\<rparr>)"
    by (rule fire_grace_after_begin)
  have t2: "timers ?m2 = timers m" and s2: "servers ?m2 = []" and p2: "processes ?m2 = []"
    by (simp_all add: m2)
  have sc2: "spawnCount s ?m2 = spawnCount s m"
    by (simp add: m2)
  have lg2: "starting_ids (logs ?m2) = starting_ids (logs m)"
    by (subst m2) simp
  have m3: "?m3 = relaunch s cfg reply'
      (?m2\<lparr>timers := take i (timers ?m2) @ drop (Suc i) (timers ?m2)\<rparr>)"
    using assms t2 by (intro fire_relaunch) simp_all
  have lg3: "starting_ids (logs ?m3) = starting_ids (logs m) @ [s]"
    by (simp only: m3 starting_ids_relaunch) (simp add: lg2)
  have ok: "fst reply' = Child pid \<longrightarrow>
      spawnCount s ?m3 = spawnCount s m + 1
      \<and> map_of (servers ?m3) s
          = Some \<lparr>sd_config = cfg, sd_pid = pid, sd_startTime = snd reply', sd_status = ''running''\<rparr>"
  proof
    assume c: "fst reply' = Child pid"
    have a: "spawnCount s ?m3 = spawnCount s m + 1"
      by (subst m3) (simp add: c relaunch_spawnCount sc2)
    have b: "map_of (servers ?m3) s
          = Some \<lparr>sd_config = cfg, sd_pid = pid, sd_startTime = snd reply', sd_status = ''running''\<rparr>"
      by (subst m3) (simp add: c relaunch_Child_servers)
    show "spawnCount s ?m3 = spawnCount s m + 1
      \<and> map_of (servers ?m3) s
          = Some \<lparr>sd_config = cfg, sd_pid = pid, sd_startTime = snd reply', sd_status = ''running''\<rparr>"
      using a b by simp
  qed
  show ?thesis using t2 s2 p2 lg3 ok by simp
qed


section \<open>The claims\<close>

subsection \<open>C1: the bound on retries\<close>




subsection \<open>C2: the retry delay\<close>

text \<open>
  Claim C2. Starting with no attempt recorded for a worker, \<open>n\<close> failures in a row leave
  the relaunch timers with the delays \<open>5000 * k\<close> milliseconds for \<open>k\<close> = 1 up to
  \<open>min n 3\<close>, in this order: 5 s, 10 s, 15 s, and no fourth; the attempts recorded
  are \<open>min n 3\<close>. The failure that follows \<open>k\<close> < 3 earlier ones is logged as attempt
  \<open>k + 1\<close> and sets the timer of \<open>5000 * (k + 1)\<close> milliseconds. The delay of an attempt
  is never less than the delay of the attempt before.
\<close>
theorem retry_delays_linear:
  assumes "attempts_of m s = 0"
  shows "timers ((handleServerFailure s cfg ^^ n) m)
           = timers m @ map (\<lambda>k. (5000 * k, Relaunch s cfg)) [1..<Suc (min n maxRetries)]
       \<and> attempts_of ((handleServerFailure s cfg ^^ n) m) s = min n maxRetries
       \<and> (k < maxRetries \<longrightarrow>
            timers (handleServerFailure s cfg ((handleServerFailure s cfg ^^ k) m))
              = timers ((handleServerFailure s cfg ^^ k) m) @ [(5000 * (k + 1), Relaunch s cfg)]
            \<and> logs (handleServerFailure s cfg ((handleServerFailure s cfg ^^ k) m))
              = logs ((handleServerFailure s cfg ^^ k) m) @ [LogRetrying s (k + 1)])
       \<and> retryDelay k = 5000 * (k + 1)
       \<and> retryDelay k \<le> retryDelay (Suc k)"
proof -
  have it: "\<And>n. timers ((handleServerFailure s cfg ^^ n) m)
           = timers m @ map (\<lambda>k. (5000 * k, Relaunch s cfg)) [1..<Suc (min n maxRetries)]
       \<and> attempts_of ((handleServerFailure s cfg ^^ n) m) s = min n maxRetries"
    using assms by (rule failures_in_a_row)
  have one: "k < maxRetries \<longrightarrow>
            timers (handleServerFailure s cfg ((handleServerFailure s cfg ^^ k) m))
              = timers ((handleServerFailure s cfg ^^ k) m) @ [(5000 * (k + 1), Relaunch s cfg)]
            \<and> logs (handleServerFailure s cfg ((handleServerFailure s cfg ^^ k) m))
              = logs ((handleServerFailure s cfg ^^ k) m) @ [LogRetrying s (k + 1)]"
  proof
    assume k: "k < maxRetries"
    let ?m = "(handleServerFailure s cfg ^^ k) m"
    have a: "attempts_of ?m s = k" using it [of k] k by simp
    then have "attempts_of ?m s < maxRetries" using k by simp
    then have "handleServerFailure s cfg ?m =
        setTimeout (Relaunch s cfg) (retryDelay (attempts_of ?m s))
          (log (LogRetrying s (attempts_of ?m s + 1))
            (?m\<lparr>connectionAttempts :=
                 AList.update s (attempts_of ?m s + 1) (connectionAttempts ?m)\<rparr>))"
      by (rule handleServerFailure_retry)
    then show "timers (handleServerFailure s cfg ?m) = timers ?m @ [(5000 * (k + 1), Relaunch s cfg)]
            \<and> logs (handleServerFailure s cfg ?m) = logs ?m @ [LogRetrying s (k + 1)]"
      using a by (simp add: retryDelay_def)
  qed
  show ?thesis using it [of n] one by (simp add: retryDelay_def)
qed

theorem retry_delays_linear_witness:
  "attempts_of new_manager ''trigger-system-mcp'' = 0
   \<and> timers ((handleServerFailure ''trigger-system-mcp''
        (trigger_system ''triggers/index.js'' True) ^^ 3) new_manager)
     = [(5000, Relaunch ''trigger-system-mcp'' (trigger_system ''triggers/index.js'' True)),
        (10000, Relaunch ''trigger-system-mcp'' (trigger_system ''triggers/index.js'' True)),
        (15000, Relaunch ''trigger-system-mcp'' (trigger_system ''triggers/index.js'' True))]
   \<and> attempts_of ((handleServerFailure ''trigger-system-mcp''
        (trigger_system ''triggers/index.js'' True) ^^ 3) new_manager) ''trigger-system-mcp'' = 3
   \<and> timers ((handleServerFailure ''trigger-system-mcp''
        (trigger_system ''triggers/index.js'' True) ^^ 5) new_manager)
     = [(5000, Relaunch ''trigger-system-mcp'' (trigger_system ''triggers/index.js'' True)),
        (10000, Relaunch ''trigger-system-mcp'' (trigger_system ''triggers/index.js'' True)),
        (15000, Relaunch ''trigger-system-mcp'' (trigger_system ''triggers/index.js'' True))]"
  using retry_delays_linear
    [where m = new_manager and s = "''trigger-system-mcp''"
       and cfg = "trigger_system ''triggers/index.js'' True" and n = 3 and k = 2]
    retry_delays_linear
    [where m = new_manager and s = "''trigger-system-mcp''"
       and cfg = "trigger_system ''triggers/index.js'' True" and n = 5 and k = 0]
  by (simp add: attempts_of_def new_manager_def maxRetries_def upt_rec)

subsection \<open>C5: disabled definitions\<close>

text \<open>
  Claim C5. For a definition of the registry with \<open>enabled = false\<close>, \<open>initialize\<close>
  creates no process, in whatever state the manager is. From the constructor on, as long as
  the host does not call \<open>startServer\<close> with that id itself, no process is ever created
  for it, and \<open>getServerStatus\<close> has an entry for it with status \<open>'stopped'\<close> and no
  process id.
\<close>
theorem disabled_never_launched:
  assumes "(s, cfg) \<in> set registry" and "\<not> cfg_enabled cfg"
    and "distinct (map fst registry)"
    and "\<not> list_ex (\<lambda>a. \<exists>c r. a = StartServer s c r) as"
  shows "spawnCount s (snd (initialize registry env m)) = spawnCount s m
       \<and> spawnCount s (run registry as new_manager) = 0
       \<and> status_of (run registry as new_manager) (s, cfg)
            \<in> set (getServerStatus registry (run registry as new_manager))
       \<and> st_id (status_of (run registry as new_manager) (s, cfg)) = s
       \<and> st_status (status_of (run registry as new_manager) (s, cfg)) = ''stopped''
       \<and> st_pid (status_of (run registry as new_manager) (s, cfg)) = None"
proof -
  have only: "\<And>c. (s, c) \<in> set registry \<Longrightarrow> c = cfg"
    using assms(1,3) by (meson eq_key_imp_eq_value)
  have noinit: "\<not> list_ex (\<lambda>kv. fst kv = s \<and> cfg_enabled (snd kv)) registry"
    using only assms(2) by (auto simp add: list_ex_iff)
  have "\<And>a. a \<in> set as \<Longrightarrow> \<not> starts registry s a"
  proof -
    fix a assume "a \<in> set as"
    then have "\<forall>c r. a \<noteq> StartServer s c r" using assms(4) by (auto simp add: list_ex_iff)
    then show "\<not> starts registry s a" using noinit by (cases a) auto
  qed
  then have nostart: "\<not> list_ex (starts registry s) as"
    by (auto simp add: list_ex_iff)
  have d: "dormant s (run registry as new_manager)
           \<and> spawnCount s (run registry as new_manager) = spawnCount s new_manager"
    using dormant_new nostart by (rule dormant_run)
  have i: "spawnCount s (snd (initialize registry env m)) = spawnCount s m"
  proof (rule initialize_preserves [where P = "\<lambda>m'. spawnCount s m' = spawnCount s m"])
    fix s' c and m' :: manager
    assume "(s', c) \<in> set registry" "cfg_enabled c" and "spawnCount s m' = spawnCount s m"
    moreover from this have "s' \<noteq> s" using only assms(2) by auto
    ultimately show "spawnCount s (snd (startServer s' c (env s') m')) = spawnCount s m"
      by (simp add: startServer_spawnCount)
  qed simp_all
  have n: "map_of (servers (run registry as new_manager)) s = None"
    using dormant_new nostart by (rule servers_none_run) (simp add: new_manager_def)
  have z: "spawnCount s new_manager = 0" by (simp add: spawnCount_def new_manager_def)
  show ?thesis
    using d i z status_of_absent [OF n, of cfg] assms(1)
    by (simp add: getServerStatus_def)
qed

theorem disabled_never_launched_witness:
  "spawnCount ''chat-analytics-mcp''
     (snd (initialize example_registry every_launch_succeeds new_manager)) = 0
   \<and> spawnCount ''chat-analytics-mcp''
     (run example_registry
        [Initialize every_launch_succeeds, ChildExit 0 (Some 1) None, TimerFire 0 (launched 102)]
        new_manager) = 0
   \<and> st_status (status_of
       (run example_registry
          [Initialize every_launch_succeeds, ChildExit 0 (Some 1) None, TimerFire 0 (launched 102)]
          new_manager)
       (''chat-analytics-mcp'', chat_analytics ''analytics/index.js'' False)) = ''stopped''"
  using disabled_never_launched
    [where s = "''chat-analytics-mcp''" and cfg = "chat_analytics ''analytics/index.js'' False"
       and registry = example_registry and env = every_launch_succeeds and m = new_manager
       and as = "[Initialize every_launch_succeeds, ChildExit 0 (Some 1) None,
                  TimerFire 0 (launched 102)]"]
  by (simp add: example_registry_def chat_analytics_def spawnCount_def new_manager_def)

subsection \<open>C6: initialize and launch failures\<close>

text \<open>
  Claim C6, as amended. \<open>initialize\<close> resolves normally. \<open>startServer\<close> is called for
  every enabled definition, once and in the order of the registry, whether earlier launches
  threw or not. Every launch that throws is answered by one \<open>serverFailed\<close> event for
  that worker. The failure is not recorded in the manager: \<open>connectionAttempts\<close> and the
  timers are unchanged, and the worker's entry in \<open>servers\<close> is what it was before.
\<close>
theorem initialize_isolates_failures:
  "fst (initialize registry env m) = Inr ()
   \<and> starting_ids (logs (snd (initialize registry env m)))
        = starting_ids (logs m) @ map fst (filter (\<lambda>kv. cfg_enabled (snd kv)) registry)
   \<and> failed_ids (emitted (snd (initialize registry env m)))
        = failed_ids (emitted m)
          @ map fst (filter (\<lambda>kv. cfg_enabled (snd kv) \<and> fst (env (fst kv)) = Throws) registry)
   \<and> connectionAttempts (snd (initialize registry env m)) = connectionAttempts m
   \<and> timers (snd (initialize registry env m)) = timers m
   \<and> (fst (env s) = Throws \<longrightarrow>
        map_of (servers (snd (initialize registry env m))) s = map_of (servers m) s)"
proof -
  have st: "starting_ids (logs (snd (initialize registry env m)))
        = starting_ids (logs m) @ map fst (filter (\<lambda>kv. cfg_enabled (snd kv)) registry)"
    by (simp add: initialize_def Let_def initialize_loop_starting_ids)
  have fl: "failed_ids (emitted (snd (initialize registry env m)))
        = failed_ids (emitted m)
          @ map fst (filter (\<lambda>kv. cfg_enabled (snd kv) \<and> fst (env (fst kv)) = Throws) registry)"
    by (simp add: initialize_def Let_def initialize_loop_failed_ids)
  have ca: "connectionAttempts (snd (initialize registry env m)) = connectionAttempts m"
    by (rule initialize_preserves [where P = "\<lambda>m'. connectionAttempts m' = connectionAttempts m"])
       simp_all
  have ti: "timers (snd (initialize registry env m)) = timers m"
    by (rule initialize_preserves [where P = "\<lambda>m'. timers m' = timers m"]) simp_all
  have sv: "fst (env s) = Throws \<longrightarrow>
        map_of (servers (snd (initialize registry env m))) s = map_of (servers m) s"
  proof
    assume thr: "fst (env s) = Throws"
    show "map_of (servers (snd (initialize registry env m))) s = map_of (servers m) s"
    proof (rule initialize_preserves
             [where P = "\<lambda>m'. map_of (servers m') s = map_of (servers m) s"])
      fix s' cfg and m' :: manager
      assume "map_of (servers m') s = map_of (servers m) s"
      then show "map_of (servers (snd (startServer s' cfg (env s') m'))) s = map_of (servers m) s"
        using thr by (cases "s' = s") (simp_all add: startServer_Throws startServer_servers_other)
    qed simp_all
  qed
  show ?thesis using st fl ca ti sv by (simp add: initialize_result)
qed

theorem initialize_isolates_failures_witness:
  "fst (initialize example_registry every_launch_throws new_manager) = Inr ()
   \<and> failed_ids (emitted (snd (initialize example_registry every_launch_throws new_manager)))
        = [''trigger-system-mcp'']
   \<and> map_of (servers (snd (initialize example_registry every_launch_throws new_manager)))
        ''trigger-system-mcp'' = None"
  using initialize_isolates_failures
    [where registry = example_registry and env = every_launch_throws and m = new_manager
       and s = "''trigger-system-mcp''"]
  by (simp add: example_registry_def every_launch_throws_def launch_throws_def new_manager_def
        trigger_system_def chat_analytics_def)

text \<open>
  Claim C6 as stated has the failure recorded per handle. After an \<open>initialize\<close> in which
  the launch of the enabled worker throws, the event has been emitted and the three maps of
  the manager are as empty as the constructor left them.
\<close>
theorem launch_failure_not_recorded_counterexample:
  "emitted (snd (initialize example_registry every_launch_throws new_manager))
     = [ServerFailed ''trigger-system-mcp'']
   \<and> servers (snd (initialize example_registry every_launch_throws new_manager)) = []
   \<and> processes (snd (initialize example_registry every_launch_throws new_manager)) = []
   \<and> connectionAttempts (snd (initialize example_registry every_launch_throws new_manager)) = []"
  by (simp add: exec_defs every_launch_throws_def trigger_system_def chat_analytics_def)

subsection \<open>C7: shutdown twice\<close>

text \<open>
  Claim C7, as amended. A \<open>shutdown\<close> called when a \<open>shutdown\<close> has just completed sends
  no signal, emits no event and changes no child; it still sets its timer of 2000 ms and
  returns only when that timer fires, and then the manager differs from the one it found
  by two log lines.
\<close>
theorem second_shutdown_only_waits:
  "signals (shutdown_begin (shutdown_finish m)) = signals (shutdown_finish m)
   \<and> children (shutdown_begin (shutdown_finish m)) = children (shutdown_finish m)
   \<and> emitted (shutdown_begin (shutdown_finish m)) = emitted (shutdown_finish m)
   \<and> timers (shutdown_begin (shutdown_finish m))
        = timers (shutdown_finish m) @ [(2000, GraceElapsed)]
   \<and> logs (shutdown_begin (shutdown_finish m)) = logs (shutdown_finish m) @ [LogShuttingDown]
   \<and> fire (length (timers (shutdown_finish m))) reply (shutdown_begin (shutdown_finish m))
        = (shutdown_finish m)\<lparr>logs := logs (shutdown_finish m) @ [LogShuttingDown, LogAllShutDown]\<rparr>"
proof -
  let ?m1 = "shutdown_finish m"
  have b: "shutdown_begin ?m1 = setTimeout GraceElapsed 2000 (log LogShuttingDown ?m1)"
    by (rule shutdown_begin_idle) simp
  have f: "fire (length (timers ?m1)) reply (shutdown_begin ?m1)
      = shutdown_finish ((shutdown_begin ?m1)\<lparr>timers := timers ?m1\<rparr>)"
    by (rule fire_grace_after_begin)
  have "shutdown_finish ((shutdown_begin ?m1)\<lparr>timers := timers ?m1\<rparr>)
      = log LogAllShutDown ((shutdown_begin ?m1)\<lparr>timers := timers ?m1\<rparr>)"
    by (rule shutdown_finish_idle) simp_all
  also have "\<dots> = ?m1\<lparr>logs := logs ?m1 @ [LogShuttingDown, LogAllShutDown]\<rparr>"
    by (simp only: b) (simp add: setTimeout_def log_def)
  finally have g: "fire (length (timers ?m1)) reply (shutdown_begin ?m1)
      = ?m1\<lparr>logs := logs ?m1 @ [LogShuttingDown, LogAllShutDown]\<rparr>"
    using f by simp
  have "signals (shutdown_begin ?m1) = signals ?m1" "children (shutdown_begin ?m1) = children ?m1"
    "emitted (shutdown_begin ?m1) = emitted ?m1"
    "timers (shutdown_begin ?m1) = timers ?m1 @ [(2000, GraceElapsed)]"
    "logs (shutdown_begin ?m1) = logs ?m1 @ [LogShuttingDown]"
    by (simp_all only: b setTimeout_fields log_fields)
  then show ?thesis using g by simp
qed

text \<open>
  Claim C7 as stated has the second call return immediately. Once a first \<open>shutdown\<close> has
  completed no timer is pending; after the second call a timer of 2000 ms is, and the line
  that precedes the return of \<open>shutdown\<close> has been logged once, not twice. This is so
  with no worker running, and with one that the first call has stopped (it received one
  SIGTERM).
\<close>
theorem second_shutdown_waits_counterexample:
  "timers (run example_registry
      [Initialize every_launch_throws, Shutdown, TimerFire 0 launch_throws] new_manager) = []
   \<and> timers (run example_registry
      [Initialize every_launch_throws, Shutdown, TimerFire 0 launch_throws, Shutdown] new_manager)
      = [(2000, GraceElapsed)]
   \<and> timers (run example_registry (shutdown_once @ [Shutdown]) new_manager) = [(2000, GraceElapsed)]
   \<and> count_list (logs (run example_registry (shutdown_once @ [Shutdown]) new_manager))
        LogAllShutDown = 1
   \<and> signals (run example_registry (shutdown_once @ [Shutdown]) new_manager) = [(0, SIGTERM)]"
  by (simp add: shutdown_once_def run_append started_state)
     (simp add: exec_defs every_launch_throws_def trigger_system_def chat_analytics_def)

subsection \<open>C8: shutdown while a retry is pending\<close>


subsection \<open>C10: the two maps\<close>

text \<open>
  Claim C10. Whatever the host, the children and the timers do to a manager, from its
  construction on, \<open>processes\<close> and \<open>servers\<close> hold the same keys (in the same
  order): a worker id has a process handle if and only if it has a metadata record.
\<close>
theorem processes_servers_same_keys:
  "keys_agree (run registry as new_manager)
   \<and> (\<forall>s. (map_of (processes (run registry as new_manager)) s \<noteq> None)
          = (map_of (servers (run registry as new_manager)) s \<noteq> None))"
proof -
  have k: "keys_agree (run registry as new_manager)"
    by (rule keys_agree_run) (simp add: keys_agree_def new_manager_def)
  then have "fst ` set (processes (run registry as new_manager))
           = fst ` set (servers (run registry as new_manager))"
    unfolding keys_agree_def by (metis set_map)
  then show ?thesis using k by (simp add: map_of_eq_None_iff)
qed

theorem processes_servers_same_keys_witness:
  "keys_agree (run example_registry crash_loop new_manager)
   \<and> map fst (processes (run example_registry crash_loop new_manager)) = [''trigger-system-mcp'']"
  using processes_servers_same_keys [of example_registry crash_loop]
  by (simp add: crash_loop_state)

end
